theory Spec2Isabelle
  imports Complex_Main "HOL-Library.Char_ord" "HOL-Library.List_Lexorder"
begin

section \<open>Embedding of \<open>visualize_network.py\<close>\<close>

text \<open>
  The program is Python 2 (\<open>sorted(..., cmp=...)\<close>, the builtin \<open>cmp\<close>): integers
  are unbounded (\<open>int\<close>), \<open>/\<close> between integers is floor division and raises
  ZeroDivisionError on a zero divisor. Every exception the modelled code can raise is a
  value of \<open>error\<close>; a function that can raise returns \<open>error + 'a\<close>.
\<close>

datatype error = ZeroDivisionError | UnboundLocalError | ValueError | IndexError | AttributeError

definition bind_err :: "error + 'a \<Rightarrow> ('a \<Rightarrow> error + 'b) \<Rightarrow> error + 'b" where
  "bind_err m f = (case m of Inl e \<Rightarrow> Inl e | Inr a \<Rightarrow> f a)"

subsection \<open>Decimal formatting (\<open>"{}".format(n)\<close>)\<close>

fun str_nat :: "nat \<Rightarrow> string" where
  "str_nat n = (if n < 10 then [char_of (48 + n)]
                else str_nat (n div 10) @ [char_of (48 + n mod 10)])"

declare str_nat.simps [simp del]

definition str_int :: "int \<Rightarrow> string" where
  "str_int i = (if i < 0 then CHR ''-'' # str_nat (nat (- i)) else str_nat (nat i))"

subsection \<open>Module constants\<close>

definition PADDING :: int where "PADDING = 60"
definition RESOURCE_DISTRIBUTION :: int where "RESOURCE_DISTRIBUTION = PADDING * 3"
definition SUBNET_MIN_W :: int where "SUBNET_MIN_W = 340"
definition SUBNET_MIN_H :: int where "SUBNET_MIN_H = 80"
definition VPC_MIN_W :: int where "VPC_MIN_W = 200"
definition VPC_MIN_H :: int where "VPC_MIN_H = 120"
definition VPC_GUTTER_DIM :: int where "VPC_GUTTER_DIM = 700"
definition DIAGRAM_COL_WIDTH_SMALL :: int where "DIAGRAM_COL_WIDTH_SMALL = 70"
definition DIAGRAM_COL_WIDTH_NORMAL :: int where "DIAGRAM_COL_WIDTH_NORMAL = 120"
definition DIAGRAM_COL_WIDTH_OVERSIZED :: int where "DIAGRAM_COL_WIDTH_OVERSIZED = 210"
definition DIAGRAM_HEADER_SPACING :: int where "DIAGRAM_HEADER_SPACING = 50"
definition SMALL_RESOURCE_TEXT_OFFSET :: int where "SMALL_RESOURCE_TEXT_OFFSET = 20"
definition LINE_BUNDLE_SPACING :: int where "LINE_BUNDLE_SPACING = 10"
definition X_DIRECTION :: int where "X_DIRECTION = 1"
definition Y_DIRECTION :: int where "Y_DIRECTION = 0"
definition NO_AZ :: string where "NO_AZ = ''no_az''"

definition ROUTE_TABLE_SHAPE :: string where "ROUTE_TABLE_SHAPE = ''mxgraph.aws3.route_table''"
definition NAT_GATEWAY_SHAPE :: string where "NAT_GATEWAY_SHAPE = ''mxgraph.aws3.vpc_nat_gateway''"
definition NACL_SHAPE :: string where "NACL_SHAPE = ''mxgraph.aws3.network_access_controllist''"
definition VPC_SHAPE :: string where "VPC_SHAPE = ''mxgraph.aws3.virtual_private_cloud''"
definition SUBNET_SHAPE :: string where "SUBNET_SHAPE = ''mxgraph.aws3.permissions''"

text \<open>
  The values the module reads from the command line (\<open>args.sub_cols\<close>,
  \<open>args.line_height\<close>, \<open>args.labels\<close>, \<open>args.rt_connections\<close>) are fixed for a run;
  the model passes them as a record.
\<close>

record config =
  SUBNET_ALIGNMENT_COLS :: int
  DIAGRAM_LINE_HEIGHT :: int
  CONNECTION_LABELS :: bool
  ADD_ROUTE_TABLE_CONNECTIONS :: bool

subsection \<open>RouteGroup\<close>

record RouteGroup =
  bundle_spacing :: int
  current_x :: int
  current_y :: int
  starting_direction :: int
  additional_break :: int

text \<open>
  \<open>RouteGroup.__init__\<close>: the constructed object together with the lines it prints.
  The default arguments are \<open>bundle_spacing = LINE_BUNDLE_SPACING\<close> and
  \<open>additional_break = -1\<close>.
\<close>

definition RouteGroup_init :: "int \<Rightarrow> int \<Rightarrow> int \<Rightarrow> int \<Rightarrow> int \<Rightarrow> RouteGroup \<times> string list" where
  "RouteGroup_init start_x_bundle start_y_bundle direction spacing break =
     (\<lparr>bundle_spacing = spacing, current_x = start_x_bundle, current_y = start_y_bundle,
       starting_direction = direction, additional_break = break\<rparr>,
      if direction \<noteq> X_DIRECTION \<and> direction \<noteq> Y_DIRECTION
      then [''WARNING: bad starting direction '' @ str_int direction
              @ '' for route group generator. '' @ [CHR 0x0A]
              @ ''(Use X_DIRECTION or Y_DIRECTION)'']
      else [])"

definition advance :: "RouteGroup \<Rightarrow> RouteGroup" where
  "advance g =
     (let g1 = (if current_x g \<noteq> - 1 then g\<lparr>current_x := current_x g + bundle_spacing g\<rparr> else g);
          g2 = (if current_y g1 \<noteq> - 1 then g1\<lparr>current_y := current_y g1 - bundle_spacing g1\<rparr> else g1)
      in (if additional_break g2 \<noteq> - 1
          then g2\<lparr>additional_break := additional_break g2 - bundle_spacing g2\<rparr> else g2))"

definition get_next_route :: "RouteGroup \<Rightarrow> int \<Rightarrow> int \<Rightarrow> (int \<times> int) list \<times> RouteGroup" where
  "get_next_route g origin_x origin_y =
     ((if starting_direction g = X_DIRECTION then
         [(current_x g, origin_y)]
         @ (if current_y g \<noteq> - 1 then [(current_x g, current_y g)] else [])
         @ (if additional_break g \<noteq> - 1 then [(additional_break g, current_y g)] else [])
       else if starting_direction g = Y_DIRECTION then
         [(origin_x, current_y g)]
         @ (if current_x g \<noteq> - 1 then [(current_x g, current_y g)] else [])
         @ (if additional_break g \<noteq> - 1 then [(current_x g, additional_break g)] else [])
       else []),
      advance g)"

text \<open>Successive calls on one generator, one per origin, in order.\<close>

fun get_next_routes :: "RouteGroup \<Rightarrow> (int \<times> int) list \<Rightarrow> (int \<times> int) list list \<times> RouteGroup" where
  "get_next_routes g [] = ([], g)"
| "get_next_routes g ((ox, oy) # os) =
     (let (r, g1) = get_next_route g ox oy;
          (rs, g2) = get_next_routes g1 os
      in (r # rs, g2))"

subsection \<open>The emitted document\<close>

text \<open>
  Every \<open>ET.SubElement(xml_root, "mxCell", ...)\<close> appends one cell. The model keeps a
  cell's id, parent and geometry; of its style string it keeps which of the program's
  style templates produced it (and the shape for an icon). An edge keeps its id, source,
  target, label and its \<open>Array\<close> of points, which is only present when the route passed in
  is non-empty (\<open>if complex_route:\<close>).
\<close>

datatype style = Rounded | Shape string | AZDashed | TextStyle | Swimlane | Lane | Entry

datatype mxcell =
    Vertex style string string int int int int
  | Edge string string string string "(int \<times> int) list option"
  | LinkLine int int int int

definition insert_text :: "string \<Rightarrow> int \<Rightarrow> int \<Rightarrow> int \<Rightarrow> int \<Rightarrow> mxcell" where
  "insert_text text x y dx dy =
     Vertex TextStyle (''text-'' @ text @ ''_'' @ str_int y) ''1'' (x + dx) (y + dy) 50 30"

definition insert_line :: "int \<Rightarrow> int \<Rightarrow> int \<Rightarrow> int \<Rightarrow> mxcell" where
  "insert_line x1 y1 x2 y2 = LinkLine x1 y1 x2 y2"

definition connection :: "config \<Rightarrow> string \<Rightarrow> string \<Rightarrow> string \<Rightarrow> string \<Rightarrow> (int \<times> int) list \<Rightarrow> mxcell" where
  "connection cfg self_id source other_id text complex_route =
     Edge (''connect'' @ self_id @ ''to'' @ other_id) source other_id
          (if CONNECTION_LABELS cfg then text else [])
          (if complex_route = [] then None else Some complex_route)"

text \<open>
  The three \<open>render_xml_connection\<close> methods share one body; they differ in the
  \<open>source\<close> attribute: the container id for a DiagramContainer, the id otherwise.
\<close>

definition DiagramContainer_render_xml_connection ::
    "config \<Rightarrow> string \<Rightarrow> string \<Rightarrow> string \<Rightarrow> (int \<times> int) list \<Rightarrow> mxcell" where
  "DiagramContainer_render_xml_connection cfg self_id other_id text complex_route =
     connection cfg self_id (self_id @ ''_container'') other_id text complex_route"

definition DiagramObject_render_xml_connection ::
    "config \<Rightarrow> string \<Rightarrow> string \<Rightarrow> string \<Rightarrow> (int \<times> int) list \<Rightarrow> mxcell" where
  "DiagramObject_render_xml_connection cfg self_id other_id text complex_route =
     connection cfg self_id self_id other_id text complex_route"

definition DiagramList_render_xml_connection ::
    "config \<Rightarrow> string \<Rightarrow> string \<Rightarrow> string \<Rightarrow> (int \<times> int) list \<Rightarrow> mxcell" where
  "DiagramList_render_xml_connection cfg self_id other_id text complex_route =
     connection cfg self_id self_id other_id text complex_route"

definition DiagramContainer_render_xml ::
    "string \<Rightarrow> int \<Rightarrow> int \<Rightarrow> int \<Rightarrow> int \<Rightarrow> string \<Rightarrow> int \<Rightarrow> int \<Rightarrow> int \<Rightarrow> int \<Rightarrow> mxcell list" where
  "DiagramContainer_render_xml cid loc_x loc_y width height shape icon_width icon_height icon_dx icon_dy =
     [Vertex Rounded (cid @ ''_container'') ''1'' loc_x loc_y width height,
      Vertex (Shape shape) cid ''1'' (loc_x + icon_dx) (loc_y + icon_dy) icon_width icon_height]"

definition DiagramObject_render_xml :: "string \<Rightarrow> int \<Rightarrow> int \<Rightarrow> string \<Rightarrow> int \<Rightarrow> int \<Rightarrow> mxcell" where
  "DiagramObject_render_xml oid loc_x loc_y shape width height =
     Vertex (Shape shape) oid ''1'' loc_x loc_y width height"

subsection \<open>DiagramList\<close>

datatype entry = HORIZONTAL_LINE | Row "string list"

definition nth_err :: "'a list \<Rightarrow> nat \<Rightarrow> error + 'a" where
  "nth_err xs i = (if i < length xs then Inr (xs ! i) else Inl IndexError)"

text \<open>
  The loop \<open>for f in range(len(self.fields))\<close> of \<open>DiagramList.render_xml\<close>: the cells
  of the lanes and the lane ids, from field index \<open>f\<close> on.
\<close>

fun create_lanes ::
    "string \<Rightarrow> string \<Rightarrow> int \<Rightarrow> int \<Rightarrow> int list \<Rightarrow> string list \<Rightarrow> nat \<Rightarrow> int
      \<Rightarrow> error + (mxcell list \<times> string list)" where
  "create_lanes title lid header_h lane_h col_widths [] f lane_x = Inr ([], [])"
| "create_lanes title lid header_h lane_h col_widths (fld # flds) f lane_x =
     bind_err (nth_err col_widths f) (\<lambda>w.
     bind_err (create_lanes title lid header_h lane_h col_widths flds (Suc f) (lane_x + w))
       (\<lambda>(cells, lanes).
          Inr (Vertex Lane (title @ ''_'' @ fld) lid lane_x header_h w lane_h # cells,
               (title @ ''_'' @ fld) # lanes)))"

text \<open>The loop \<open>for i in range(len(entry))\<close>, from index \<open>i\<close> on.\<close>

fun add_entries :: "string list \<Rightarrow> int list \<Rightarrow> int \<Rightarrow> string list \<Rightarrow> nat \<Rightarrow> error + mxcell list" where
  "add_entries lanes col_widths y_offset [] i = Inr []"
| "add_entries lanes col_widths y_offset (v # vs) i =
     bind_err (nth_err lanes i) (\<lambda>lane.
     bind_err (nth_err col_widths i) (\<lambda>w.
     bind_err (add_entries lanes col_widths y_offset vs (Suc i)) (\<lambda>cells.
       Inr (Vertex Entry (lane @ ''_'' @ v @ ''_'' @ str_int y_offset) lane 5 y_offset (w - 10) 26
            # cells))))"

fun render_entries ::
    "config \<Rightarrow> string list \<Rightarrow> int list \<Rightarrow> int \<Rightarrow> int \<Rightarrow> int \<Rightarrow> entry list \<Rightarrow> int \<Rightarrow> error + mxcell list" where
  "render_entries cfg lanes col_widths x y width [] y_offset = Inr []"
| "render_entries cfg lanes col_widths x y width (e # es) y_offset =
     bind_err (case e of
                 HORIZONTAL_LINE \<Rightarrow>
                   (let horiz_line_y = y + y_offset + DIAGRAM_HEADER_SPACING div 2 + 5
                    in Inr [insert_line x horiz_line_y (x + width) horiz_line_y])
               | Row vs \<Rightarrow> add_entries lanes col_widths y_offset vs 0) (\<lambda>cells.
     bind_err (render_entries cfg lanes col_widths x y width es (y_offset + DIAGRAM_LINE_HEIGHT cfg))
       (\<lambda>rest. Inr (cells @ rest)))"

text \<open>\<open>DiagramList.render_xml\<close>: the cells and the returned height.\<close>

definition DiagramList_render_xml ::
    "config \<Rightarrow> string \<Rightarrow> string \<Rightarrow> entry list \<Rightarrow> string list \<Rightarrow> int list \<Rightarrow> int \<Rightarrow> int
      \<Rightarrow> error + (mxcell list \<times> int)" where
  "DiagramList_render_xml cfg title lid entries flds col_widths x y =
     (let width = sum_list col_widths;
          height = DIAGRAM_HEADER_SPACING + DIAGRAM_LINE_HEIGHT cfg * int (length entries)
      in bind_err (create_lanes title lid (DIAGRAM_LINE_HEIGHT cfg)
                     (height - DIAGRAM_LINE_HEIGHT cfg) col_widths flds 0 0) (\<lambda>(lane_cells, lanes).
         bind_err (render_entries cfg lanes col_widths x y width entries (DIAGRAM_LINE_HEIGHT cfg))
           (\<lambda>entry_cells.
              Inr (Vertex Swimlane lid ''1'' x y width height # lane_cells @ entry_cells, height))))"

subsection \<open>NAclResource\<close>

type_synonym rule = "int \<times> string \<times> bool \<times> string \<times> string"

record NAclResource =
  nacl_id :: string
  col_suggestion :: int
  rules_ingress :: "rule list"
  rules_egress :: "rule list"
  nacl_name :: string
  nacl_self_x :: int

definition add_col_suggestion :: "NAclResource \<Rightarrow> int \<Rightarrow> NAclResource" where
  "add_col_suggestion nacl suggestion = nacl\<lparr>col_suggestion := suggestion\<rparr>"

definition get_col_suggestion :: "NAclResource \<Rightarrow> int" where
  "get_col_suggestion nacl = col_suggestion nacl"

text \<open>A rule tuple as the row of strings \<open>"{}".format(value)\<close> makes of its values.\<close>

definition rule_row :: "rule \<Rightarrow> entry" where
  "rule_row r = (case r of (n, protocol, egress, cidr_block, action) \<Rightarrow>
     Row [str_int n, protocol, (if egress then ''True'' else ''False''), cidr_block, action])"

text \<open>
  \<open>int((x - VPC_GUTTER_DIM) * 3.5)\<close>: the product is exact in floating point for every
  coordinate below \<open>2^50\<close>, and \<open>int\<close> truncates towards zero.
\<close>

definition int_times_3_5 :: "int \<Rightarrow> int" where
  "int_times_3_5 v = (if 0 \<le> v then (7 * v) div 2 else - ((7 * (- v)) div 2))"

definition NAclResource_render_xml ::
    "config \<Rightarrow> NAclResource \<Rightarrow> int \<Rightarrow> int \<Rightarrow> RouteGroup \<Rightarrow> int
      \<Rightarrow> error + (mxcell list \<times> NAclResource \<times> RouteGroup)" where
  "NAclResource_render_xml cfg nacl x y route_generator padding =
     (let sorted_rules_egress = map rule_row (sort_key fst (rules_egress nacl));
          sorted_rules_ingress = map rule_row (sort_key fst (rules_ingress nacl));
          entries = sorted_rules_egress @ [HORIZONTAL_LINE] @ sorted_rules_ingress;
          flds = [''Rule Number'', ''Protocol'', ''Egress'', ''Cidr Block'', ''Rule Action''];
          widths = [DIAGRAM_COL_WIDTH_NORMAL, DIAGRAM_COL_WIDTH_SMALL, DIAGRAM_COL_WIDTH_SMALL,
                    DIAGRAM_COL_WIDTH_OVERSIZED, DIAGRAM_COL_WIDTH_SMALL];
          label = (if nacl_name nacl = [] then nacl_id nacl
                   else nacl_name nacl @ ''  |  '' @ nacl_id nacl)
      in bind_err (if length entries > 0
                   then bind_err (DiagramList_render_xml cfg label (nacl_id nacl @ ''_list'') entries
                                    flds widths
                                    (int_times_3_5 (x - VPC_GUTTER_DIM) - (3 * VPC_GUTTER_DIM) div 2)
                                    padding) (\<lambda>(cells, h). Inr cells)
                   else Inr []) (\<lambda>list_cells.
         (let (route, g) = get_next_route route_generator (x + 30) y
          in Inr ([DiagramObject_render_xml (nacl_id nacl) x y NACL_SHAPE 50 50,
                   insert_text (nacl_id nacl) x y (- 30) 50]
                  @ list_cells
                  @ [DiagramObject_render_xml_connection cfg (nacl_id nacl)
                       (nacl_id nacl @ ''_list'') [] route],
                  nacl\<lparr>nacl_self_x := x\<rparr>, g))))"

subsection \<open>NgResource\<close>

record NgResource =
  ng_id :: string
  ng_subnet_id :: string
  ng_name :: string
  igw :: "string option"

definition NgResource_render_xml :: "config \<Rightarrow> NgResource \<Rightarrow> int \<Rightarrow> int \<Rightarrow> mxcell list" where
  "NgResource_render_xml cfg ng x y =
     [DiagramObject_render_xml (ng_id ng) x y NAT_GATEWAY_SHAPE 50 50,
      insert_text (ng_name ng) x y 50 0,
      insert_text (ng_id ng) x (y + DIAGRAM_LINE_HEIGHT cfg) 50 0]
     @ (case igw ng of
          None \<Rightarrow> []
        | Some igw_id \<Rightarrow>
            [DiagramObject_render_xml_connection cfg (ng_id ng) igw_id []
               [(x + 4 * PADDING, y + PADDING)]])"

subsection \<open>SubnetResource\<close>

text \<open>
  An association is the tuple \<open>(subnet id, nacl id, association id, nacl, nacl)\<close> that
  \<open>visualize_vpc\<close> builds; its NAclResource components are read when the subnet is
  rendered, so the model holds the NAclResource as it is then.
\<close>

type_synonym nacl_assoc = "string \<times> string \<times> string \<times> NAclResource \<times> NAclResource"

record SubnetResource =
  sub_id :: string
  cidr :: string
  az :: string
  ng_list :: "NgResource list"
  sub_col_suggestion :: int
  associations :: "nacl_assoc list"
  sub_name :: string

definition SubnetResource_get_dimensions :: "SubnetResource \<Rightarrow> int \<times> int" where
  "SubnetResource_get_dimensions s =
     (let h = SUBNET_MIN_H;
          ng_height_requirement = int (length (ng_list s)) * RESOURCE_DISTRIBUTION - PADDING
      in (SUBNET_MIN_W, if ng_height_requirement > h then ng_height_requirement else h))"

definition SubnetResource_get_col_suggestion :: "SubnetResource \<Rightarrow> int" where
  "SubnetResource_get_col_suggestion s =
     (case associations s of
        [] \<Rightarrow> 0
      | (a0, a1, a2, a3, a4) # _ \<Rightarrow> get_col_suggestion a3)"

text \<open>
  The loop over \<open>self.associations\<close>. The generator is \<open>None\<close> when the caller passed
  \<open>None\<close>; calling \<open>get_next_route\<close> on it raises AttributeError.
\<close>

fun render_associations ::
    "config \<Rightarrow> string \<Rightarrow> int \<Rightarrow> int \<Rightarrow> nacl_assoc list \<Rightarrow> RouteGroup option
      \<Rightarrow> error + (mxcell list \<times> RouteGroup option)" where
  "render_associations cfg sid x y [] gen = Inr ([], gen)"
| "render_associations cfg sid x y ((a0, a1, a2, a3, a4) # as) gen =
     (case gen of
        None \<Rightarrow> Inl AttributeError
      | Some g \<Rightarrow>
          (let (route, g1) = get_next_route g x (y + 30)
           in bind_err (render_associations cfg sid x y as (Some g1)) (\<lambda>(cells, gen2).
                Inr (DiagramContainer_render_xml_connection cfg sid a1 a2 route # cells, gen2))))"

fun render_ngs :: "config \<Rightarrow> int \<Rightarrow> NgResource list \<Rightarrow> int \<Rightarrow> mxcell list" where
  "render_ngs cfg ng_x [] ng_y = []"
| "render_ngs cfg ng_x (ng # ngs) ng_y =
     NgResource_render_xml cfg ng ng_x ng_y @ render_ngs cfg ng_x ngs (ng_y + RESOURCE_DISTRIBUTION)"

definition SubnetResource_render_xml ::
    "config \<Rightarrow> SubnetResource \<Rightarrow> int \<Rightarrow> int \<Rightarrow> RouteGroup option \<Rightarrow> int
      \<Rightarrow> error + (mxcell list \<times> RouteGroup option)" where
  "SubnetResource_render_xml cfg s x y route_generator padding =
     (let (subnet_w, subnet_h) = SubnetResource_get_dimensions s
      in bind_err (render_associations cfg (sub_id s) x y (associations s) route_generator)
           (\<lambda>(conn_cells, gen).
              (let ng_x = x + subnet_w - padding div 2;
                   ng_y = y + subnet_h div 2
               in Inr (DiagramContainer_render_xml (sub_id s) x y subnet_w subnet_h SUBNET_SHAPE 30 36 20 (- 20)
                       @ [insert_text (sub_id s @ '', CIDR: '' @ cidr s) x y 15 10,
                          insert_text (sub_name s) x (y + DIAGRAM_LINE_HEIGHT cfg) 15 10]
                       @ conn_cells
                       @ render_ngs cfg ng_x (ng_list s) ng_y, gen))))"

subsection \<open>RouteTableResource\<close>

text \<open>A route is the tuple \<open>(dest_cidr, state, gw_id, origin)\<close> that \<open>add_route\<close> stores.\<close>

type_synonym route = "string \<times> string \<times> string \<times> string"

record RouteTableResource =
  rt_id :: string
  rt_associations :: "(string \<times> string) list"
  routes :: "route list"
  rt_name :: string
  az_connections :: "string list"

text \<open>
  \<open>int(s)\<close> on a string, as far as the comparison needs it: ASCII whitespace around an
  optional sign and at least one decimal digit parses, anything else raises ValueError
  (\<open>None\<close>).
\<close>

definition is_space :: "char \<Rightarrow> bool" where
  "is_space c = (c = CHR '' '' \<or> c = CHR 0x09 \<or> c = CHR 0x0A \<or> c = CHR 0x0B
                 \<or> c = CHR 0x0C \<or> c = CHR 0x0D)"

definition strip :: "string \<Rightarrow> string" where
  "strip s = rev (dropWhile is_space (rev (dropWhile is_space s)))"

definition is_digit :: "char \<Rightarrow> bool" where
  "is_digit c = (48 \<le> (of_char c :: nat) \<and> (of_char c :: nat) \<le> 57)"

fun digits_val :: "nat \<Rightarrow> string \<Rightarrow> nat option" where
  "digits_val acc [] = Some acc"
| "digits_val acc (c # cs) =
     (if is_digit c then digits_val (10 * acc + (of_char c - 48)) cs else None)"

definition py_int :: "string \<Rightarrow> int option" where
  "py_int s =
     (case strip s of
        [] \<Rightarrow> None
      | c # r \<Rightarrow>
          if c = CHR ''-'' then (if r = [] then None else map_option (\<lambda>n. - int n) (digits_val 0 r))
          else if c = CHR ''+'' then (if r = [] then None else map_option int (digits_val 0 r))
          else map_option int (digits_val 0 (c # r)))"

text \<open>\<open>s.split(c)\<close> for a one-character separator: never the empty list.\<close>

fun split_on :: "char \<Rightarrow> string \<Rightarrow> string list" where
  "split_on c [] = [[]]"
| "split_on c (x # xs) =
     (if x = c then [] # split_on c xs
      else (case split_on c xs of [] \<Rightarrow> [[x]] | p # ps \<Rightarrow> (x # p) # ps))"

fun cmp_cidr :: "string list \<Rightarrow> string list \<Rightarrow> int" where
  "cmp_cidr [] cidr_two_list = 0"
| "cmp_cidr (a # as) [] = 0"
| "cmp_cidr (a # as) (b # bs) =
     (case py_int a of
        None \<Rightarrow> - 1
      | Some val_one \<Rightarrow>
          (case py_int b of
             None \<Rightarrow> 1
           | Some val_two \<Rightarrow>
               if val_one < val_two then - 1
               else if val_one > val_two then 1
               else cmp_cidr as bs))"

text \<open>
  \<open>sorted(xs, cmp=f)\<close>: a stable insertion sort that places each element, in turn,
  before the first element of the sorted prefix it compares less than
  (\<open>f(new, old) < 0\<close>). Whenever \<open>f\<close> orders the elements of \<open>xs\<close> consistently this
  is the list CPython's stable sort returns.
\<close>

fun insert_cmp :: "('a \<Rightarrow> 'a \<Rightarrow> int) \<Rightarrow> 'a \<Rightarrow> 'a list \<Rightarrow> 'a list" where
  "insert_cmp f x [] = [x]"
| "insert_cmp f x (y # ys) = (if f x y < 0 then x # y # ys else y # insert_cmp f x ys)"

definition sorted_cmp :: "('a \<Rightarrow> 'a \<Rightarrow> int) \<Rightarrow> 'a list \<Rightarrow> 'a list" where
  "sorted_cmp f xs = foldl (\<lambda>acc x. insert_cmp f x acc) [] xs"

text \<open>
  The loop \<open>for r in range(len(cidr_sorted))\<close> of \<open>sort_routes\<close>: one step pops the
  element at index \<open>r\<close> and inserts it at the front when its gateway is \<open>'local'\<close>.
\<close>

definition gw_id :: "route \<Rightarrow> string" where
  "gw_id r = fst (snd (snd r))"

definition local_step :: "nat \<Rightarrow> route list \<Rightarrow> route list" where
  "local_step r xs =
     (if gw_id (xs ! r) = ''local'' then (xs ! r) # take r xs @ drop (Suc r) xs else xs)"

definition sort_routes :: "RouteTableResource \<Rightarrow> route list" where
  "sort_routes rt =
     (let cidr_sorted =
            sorted_cmp (\<lambda>cidr_one cidr_two.
                          cmp_cidr (split_on CHR ''.'' (fst cidr_one)) (split_on CHR ''.'' (fst cidr_two)))
                       (routes rt)
      in fold local_step [0..<length cidr_sorted] cidr_sorted)"

definition register_rt_association ::
    "RouteTableResource \<Rightarrow> string \<Rightarrow> string \<Rightarrow> string \<Rightarrow> RouteTableResource" where
  "register_rt_association rt subnet_id rt_assoc_id zone =
     rt\<lparr>rt_associations := rt_associations rt @ [(subnet_id, rt_assoc_id)],
        az_connections := az_connections rt @ [zone]\<rparr>"

text \<open>
  \<open>max(iterable, key=k)\<close>: the first element, in iteration order, whose key is
  greatest.
\<close>

fun max_key :: "('a \<Rightarrow> nat) \<Rightarrow> 'a \<Rightarrow> 'a list \<Rightarrow> 'a" where
  "max_key k best [] = best"
| "max_key k best (x # xs) = max_key k (if k x > k best then x else best) xs"

text \<open>
  \<open>get_suggested_az\<close>. The order in which \<open>set(self.az_connections)\<close> is iterated
  depends on the interpreter's string hashes; it is the parameter \<open>set_iter\<close>, which
  lists the distinct elements of its argument.
\<close>

definition get_suggested_az :: "(string list \<Rightarrow> string list) \<Rightarrow> RouteTableResource \<Rightarrow> error + string" where
  "get_suggested_az set_iter rt =
     (if az_connections rt = [] then Inr NO_AZ
      else (case set_iter (az_connections rt) of
              [] \<Rightarrow> Inl ValueError
            | z # zs \<Rightarrow> Inr (max_key (count_list (az_connections rt)) z zs)))"

definition simplify_origin :: "string \<Rightarrow> string" where
  "simplify_origin origin =
     (if origin = ''EnableVgwRoutePropagation'' then ''Propagated''
      else if origin = ''CreateRoute'' then ''Create Route''
      else if origin = ''CreateRouteTable'' then ''Create Table''
      else origin)"

definition add_route :: "RouteTableResource \<Rightarrow> string \<Rightarrow> string \<Rightarrow> string \<Rightarrow> string \<Rightarrow> RouteTableResource" where
  "add_route rt dest_cidr state gw origin =
     rt\<lparr>routes := routes rt @ [(dest_cidr, state, gw, simplify_origin origin)]\<rparr>"

definition route_row :: "route \<Rightarrow> entry" where
  "route_row r = (case r of (dest_cidr, state, gw, origin) \<Rightarrow> Row [dest_cidr, state, gw, origin])"

text \<open>The loop over \<open>self.associations\<close> of \<open>RouteTableResource.render_xml\<close>.\<close>

fun render_rt_associations ::
    "config \<Rightarrow> string \<Rightarrow> int \<Rightarrow> int \<Rightarrow> (string \<times> string) list \<Rightarrow> RouteGroup \<Rightarrow> mxcell list \<times> RouteGroup" where
  "render_rt_associations cfg rid x y [] g = ([], g)"
| "render_rt_associations cfg rid x y ((subnet_id, assoc_id) # as) g =
     (let (route, g1) = get_next_route g (x + 50) (y + 40);
          (cells, g2) = render_rt_associations cfg rid x y as g1
      in (DiagramObject_render_xml_connection cfg rid (subnet_id @ ''_container'') assoc_id route # cells,
          g2))"

text \<open>The loop over \<open>self.routes\<close> that runs when ADD_ROUTE_TABLE_CONNECTIONS is set.\<close>

fun render_route_connections ::
    "config \<Rightarrow> string \<Rightarrow> int \<Rightarrow> route list \<Rightarrow> string list \<Rightarrow> int \<Rightarrow> RouteGroup \<Rightarrow> mxcell list \<times> RouteGroup" where
  "render_route_connections cfg lid x [] routes_connected route_y g = ([], g)"
| "render_route_connections cfg lid x (r # rs) routes_connected route_y g =
     (if gw_id r \<notin> set routes_connected
      then (let (route, g1) = get_next_route g x route_y;
                (cells, g2) = render_route_connections cfg lid x rs (routes_connected @ [gw_id r])
                                (route_y + LINE_BUNDLE_SPACING) g1
            in (DiagramList_render_xml_connection cfg lid (gw_id r) [] route # cells, g2))
      else render_route_connections cfg lid x rs routes_connected route_y g)"

text \<open>
  \<open>RouteTableResource.render_xml\<close>: the returned height, the cells and the three
  generators after the call. The local \<open>resource_height\<close> is bound only inside
  \<open>if len(self.routes) > 0\<close>; \<open>return resource_height\<close> raises UnboundLocalError
  when it is not.
\<close>

definition RouteTableResource_render_xml ::
    "config \<Rightarrow> RouteTableResource \<Rightarrow> int \<Rightarrow> int \<Rightarrow> int \<Rightarrow> RouteGroup \<Rightarrow> RouteGroup \<Rightarrow> RouteGroup \<Rightarrow> int
      \<Rightarrow> error + (int \<times> mxcell list \<times> RouteGroup \<times> RouteGroup \<times> RouteGroup)" where
  "RouteTableResource_render_xml cfg rt x y list_y route_generator list_route_generator
       rt_diagram_route_generator padding =
     (let head_cells = [DiagramObject_render_xml (rt_id rt) x y ROUTE_TABLE_SHAPE 50 50,
                        insert_text (rt_id rt) x y 0 50];
          (assoc_cells, g1) = render_rt_associations cfg (rt_id rt) x y (rt_associations rt) route_generator
      in bind_err
           (if length (routes rt) > 0
            then (let flds = [''Destination CIDR'', ''State'', ''Gateway ID'', ''Origin''];
                      widths = [DIAGRAM_COL_WIDTH_OVERSIZED, DIAGRAM_COL_WIDTH_SMALL,
                                DIAGRAM_COL_WIDTH_NORMAL, DIAGRAM_COL_WIDTH_NORMAL];
                      label = (if rt_name rt = [] then rt_id rt else rt_name rt @ ''  |  '' @ rt_id rt);
                      sorted_routes = sort_routes rt
                  in bind_err (DiagramList_render_xml cfg label (rt_id rt @ ''_list'')
                                 (map route_row sorted_routes) flds widths 0 (list_y - RESOURCE_DISTRIBUTION))
                       (\<lambda>(list_cells, h).
                          (let (conn_cells, g3) =
                                 (if ADD_ROUTE_TABLE_CONNECTIONS cfg
                                  then render_route_connections cfg (rt_id rt @ ''_list'') x (routes rt) []
                                         (y + padding) rt_diagram_route_generator
                                  else ([], rt_diagram_route_generator))
                           in Inr (Some h, list_cells @ conn_cells, g3))))
            else Inr (None, [], rt_diagram_route_generator))
           (\<lambda>(resource_height, list_cells, g3).
              (let (route, g2) = get_next_route list_route_generator x (y + 10);
                   cells = head_cells @ assoc_cells @ list_cells
                           @ [DiagramObject_render_xml_connection cfg (rt_id rt) (rt_id rt @ ''_list'') [] route]
               in (case resource_height of
                     None \<Rightarrow> Inl UnboundLocalError
                   | Some h \<Rightarrow> Inr (h, cells, g1, g2, g3)))))"

subsection \<open>AZResource\<close>

record AZResource =
  az_id :: string
  subnets :: "SubnetResource list"
  width_override :: "bool \<times> int"

definition override_width :: "AZResource \<Rightarrow> int \<Rightarrow> AZResource" where
  "override_width a width = a\<lparr>width_override := (True, width)\<rparr>"

definition empty :: "AZResource \<Rightarrow> bool" where
  "empty a = (length (subnets a) = 0)"

definition get_total_subnets :: "AZResource \<Rightarrow> int" where
  "get_total_subnets a = int (length (subnets a))"

definition AZResource_get_dimensions :: "AZResource \<Rightarrow> int \<times> int" where
  "AZResource_get_dimensions a =
     (let (w, h) = fold (\<lambda>subnet (w, h).
                           (let (new_w, new_h) = SubnetResource_get_dimensions subnet
                            in (new_w, h + new_h + PADDING)))
                        (subnets a) (0, PADDING)
      in (if fst (width_override a) then snd (width_override a) else w + 2 * PADDING, h))"

text \<open>The loop over \<open>sorted_subnets\<close> of \<open>AZResource.render_xml\<close>.\<close>

fun render_subnets ::
    "config \<Rightarrow> int \<Rightarrow> int \<Rightarrow> int \<Rightarrow> SubnetResource list \<Rightarrow> int \<Rightarrow> RouteGroup option
      \<Rightarrow> error + (mxcell list \<times> RouteGroup option)" where
  "render_subnets cfg width subnet_x padding [] subnet_y gen = Inr ([], gen)"
| "render_subnets cfg width subnet_x padding (subnet # rest) subnet_y gen =
     (let col = SubnetResource_get_col_suggestion subnet;
          (sub_w, sub_h) = SubnetResource_get_dimensions subnet
      in if SUBNET_ALIGNMENT_COLS cfg = 0 then Inl ZeroDivisionError
         else (let offset = col * ((width - sub_w - padding) div SUBNET_ALIGNMENT_COLS cfg)
               in bind_err (SubnetResource_render_xml cfg subnet (subnet_x + offset) subnet_y gen PADDING)
                    (\<lambda>(cells, gen1).
                  bind_err (render_subnets cfg width subnet_x padding rest (subnet_y + padding + sub_h) gen1)
                    (\<lambda>(cells2, gen2). Inr (cells @ cells2, gen2)))))"

definition AZResource_render_xml ::
    "config \<Rightarrow> AZResource \<Rightarrow> int \<Rightarrow> int \<Rightarrow> RouteGroup option \<Rightarrow> int
      \<Rightarrow> error + (mxcell list \<times> RouteGroup option)" where
  "AZResource_render_xml cfg a x y nacl_route_generator padding =
     (let (width, height) = AZResource_get_dimensions a;
          sorted_subnets = sort_key sub_name (subnets a)
      in bind_err (render_subnets cfg width (x + padding) padding sorted_subnets (y + padding)
                     nacl_route_generator)
           (\<lambda>(cells, gen).
              Inr ([Vertex AZDashed (az_id a) ''1'' x y width height,
                    insert_text (az_id a) (x + width div 2 - 40) (y + height - 40) 15 10]
                   @ cells, gen)))"

subsection \<open>VpcResource\<close>

record VpcResource =
  vpc_id :: string
  az_list :: "AZResource list"
  nacl_list :: "NAclResource list"
  rt_list :: "RouteTableResource list"
  vpc_name :: string
  vpc_cidr :: string
  dns_server_list :: "string list"
  domain_list :: "string list"

definition check_empty :: "VpcResource \<Rightarrow> bool" where
  "check_empty v = (az_list v = [] \<and> nacl_list v = [] \<and> rt_list v = [])"

text \<open>
  \<open>sorted(xs, cmp=f)\<close> for a comparison that can raise: the insertion sort above, with
  the first exception of a comparison passed on. A list of fewer than two elements is
  returned without any comparison.
\<close>

fun insert_cmp_err :: "('a \<Rightarrow> 'a \<Rightarrow> error + int) \<Rightarrow> 'a \<Rightarrow> 'a list \<Rightarrow> error + 'a list" where
  "insert_cmp_err f x [] = Inr [x]"
| "insert_cmp_err f x (y # ys) =
     bind_err (f x y) (\<lambda>c.
       if c < 0 then Inr (x # y # ys)
       else bind_err (insert_cmp_err f x ys) (\<lambda>zs. Inr (y # zs)))"

definition sorted_cmp_err :: "('a \<Rightarrow> 'a \<Rightarrow> error + int) \<Rightarrow> 'a list \<Rightarrow> error + 'a list" where
  "sorted_cmp_err f xs = foldl (\<lambda>acc x. bind_err acc (insert_cmp_err f x)) (Inr []) xs"

text \<open>\<open>xs.index(x)\<close>: ValueError when \<open>x\<close> is not in the list.\<close>

fun index_of :: "'a list \<Rightarrow> 'a \<Rightarrow> error + nat" where
  "index_of [] x = Inl ValueError"
| "index_of (y # ys) x = (if y = x then Inr 0 else bind_err (index_of ys x) (\<lambda>i. Inr (Suc i)))"

definition py_cmp :: "nat \<Rightarrow> nat \<Rightarrow> int" where
  "py_cmp a b = (if a < b then - 1 else if a > b then 1 else 0)"

definition sort_rt_resources ::
    "(string list \<Rightarrow> string list) \<Rightarrow> VpcResource \<Rightarrow> error + RouteTableResource list" where
  "sort_rt_resources set_iter v =
     (if check_empty v then Inr []
      else (let az_sorting_list = map az_id (az_list v) @ [NO_AZ]
            in sorted_cmp_err
                 (\<lambda>rt_one rt_two.
                    bind_err (get_suggested_az set_iter rt_one) (\<lambda>z1.
                    bind_err (index_of az_sorting_list z1) (\<lambda>i1.
                    bind_err (get_suggested_az set_iter rt_two) (\<lambda>z2.
                    bind_err (index_of az_sorting_list z2) (\<lambda>i2.
                      Inr (py_cmp i1 i2))))))
                 (rt_list v)))"

text \<open>
  \<open>VpcResource.get_dimensions\<close>: the pair it returns and the object afterwards (the
  call may override the width of every availability zone).
\<close>

definition VpcResource_get_dimensions :: "VpcResource \<Rightarrow> (int \<times> int) \<times> VpcResource" where
  "VpcResource_get_dimensions v =
     (if check_empty v then ((VPC_MIN_W, VPC_MIN_H), v)
      else
        (let (az_combined_height_requirement, az_max_width_requirement) =
               fold (\<lambda>a (ch, mw).
                       (let (w, h) = AZResource_get_dimensions a
                        in (ch + h, if w + PADDING > mw then w + PADDING else mw)))
                    (az_list v)
                    (RESOURCE_DISTRIBUTION + 2 * PADDING, RESOURCE_DISTRIBUTION + PADDING);
             nacl_combined_width_requirement = int (length (nacl_list v)) * RESOURCE_DISTRIBUTION;
             (max_w, azs) =
               (if nacl_combined_width_requirement > az_max_width_requirement
                then (nacl_combined_width_requirement,
                      map (\<lambda>a. override_width a (nacl_combined_width_requirement - PADDING)) (az_list v))
                else (az_max_width_requirement, az_list v));
             rt_combined_height_requirement = int (length (rt_list v)) * RESOURCE_DISTRIBUTION;
             combined_h =
               (if rt_combined_height_requirement > az_combined_height_requirement
                then rt_combined_height_requirement else az_combined_height_requirement)
         in ((max_w + 5 * PADDING, combined_h + 2 * PADDING), v\<lparr>az_list := azs\<rparr>)))"

text \<open>The loops over \<open>self.domain_list\<close> and \<open>self.dns_server_list\<close>.\<close>

fun render_text_list :: "config \<Rightarrow> int \<Rightarrow> int \<Rightarrow> string list \<Rightarrow> int \<Rightarrow> mxcell list \<times> int" where
  "render_text_list cfg x text_offset [] list_y = ([], list_y)"
| "render_text_list cfg x text_offset (t # ts) list_y =
     (let (cells, list_y2) = render_text_list cfg x text_offset ts (list_y + DIAGRAM_LINE_HEIGHT cfg)
      in (insert_text (''- '' @ t) x list_y text_offset 20 # cells, list_y2))"

text \<open>The loop over \<open>self.nacl_list\<close>.\<close>

fun render_nacls ::
    "config \<Rightarrow> int \<Rightarrow> NAclResource list \<Rightarrow> int \<Rightarrow> RouteGroup
      \<Rightarrow> error + (mxcell list \<times> NAclResource list \<times> RouteGroup)" where
  "render_nacls cfg nacl_y [] nacl_x g = Inr ([], [], g)"
| "render_nacls cfg nacl_y (nacl # rest) nacl_x g =
     bind_err (NAclResource_render_xml cfg nacl nacl_x nacl_y g PADDING) (\<lambda>(cells, nacl1, g1).
     bind_err (render_nacls cfg nacl_y rest (nacl_x + RESOURCE_DISTRIBUTION) g1) (\<lambda>(cells2, rest1, g2).
       Inr (cells @ cells2, nacl1 # rest1, g2)))"

text \<open>
  \<open>int(rt_height / 1.3)\<close>: the quotient is a float and \<open>int\<close> truncates towards zero.
  For the heights a route list can have the truncated float quotient is the truncated
  exact quotient \<open>10 * rt_height / 13\<close>.
\<close>

definition int_div_1_3 :: "int \<Rightarrow> int" where
  "int_div_1_3 h = (if 0 \<le> h then (10 * h) div 13 else - ((10 * (- h)) div 13))"

text \<open>The loop over \<open>self.sort_rt_resources()\<close>.\<close>

fun render_rts ::
    "config \<Rightarrow> int \<Rightarrow> int \<Rightarrow> RouteTableResource list \<Rightarrow> int \<Rightarrow> int \<Rightarrow> RouteGroup \<Rightarrow> RouteGroup \<Rightarrow> RouteGroup
      \<Rightarrow> error + mxcell list" where
  "render_rts cfg rt_x padding [] rt_y rt_list_y g1 g2 g3 = Inr []"
| "render_rts cfg rt_x padding (rt # rest) rt_y rt_list_y g1 g2 g3 =
     bind_err (RouteTableResource_render_xml cfg rt rt_x rt_y rt_list_y g1 g2 g3 PADDING)
       (\<lambda>(rt_height, cells, g1', g2', g3').
     bind_err (render_rts cfg rt_x padding rest
                 (rt_y + max (int_div_1_3 rt_height) RESOURCE_DISTRIBUTION)
                 (rt_list_y + max (padding + rt_height) RESOURCE_DISTRIBUTION) g1' g2' g3')
       (\<lambda>cells2. Inr (cells @ cells2)))"

text \<open>
  The loop over \<open>self.az_list\<close>: empty zones are overridden to the small width and
  packed two to a row; \<open>right\<close> says that the left place of the current row is taken.
\<close>

fun render_azs ::
    "config \<Rightarrow> int \<Rightarrow> int \<Rightarrow> int \<Rightarrow> AZResource list \<Rightarrow> int \<Rightarrow> bool \<Rightarrow> RouteGroup
      \<Rightarrow> error + (mxcell list \<times> AZResource list \<times> RouteGroup)" where
  "render_azs cfg az_x small_az_width padding [] az_y right g = Inr ([], [], g)"
| "render_azs cfg az_x small_az_width padding (a # rest) az_y right g =
     (if empty a then
        (let a1 = override_width a small_az_width
         in if right then
              bind_err (AZResource_render_xml cfg a1 (az_x + small_az_width + padding) az_y None PADDING)
                (\<lambda>(cells, gen).
              bind_err (render_azs cfg az_x small_az_width padding rest
                          (az_y + padding + snd (AZResource_get_dimensions a1)) (\<not> right) g)
                (\<lambda>(cells2, rest1, g2). Inr (cells @ cells2, a1 # rest1, g2)))
            else
              bind_err (AZResource_render_xml cfg a1 az_x az_y None PADDING)
                (\<lambda>(cells, gen).
              bind_err (render_azs cfg az_x small_az_width padding rest az_y (\<not> right) g)
                (\<lambda>(cells2, rest1, g2). Inr (cells @ cells2, a1 # rest1, g2))))
      else
        (let az_y1 = (if right then az_y + SUBNET_MIN_H + padding else az_y)
         in bind_err (AZResource_render_xml cfg a az_x az_y1 (Some g) PADDING)
              (\<lambda>(cells, gen).
            bind_err (render_azs cfg az_x small_az_width padding rest
                        (az_y1 + padding + snd (AZResource_get_dimensions a)) False
                        (case gen of None \<Rightarrow> g | Some g1 \<Rightarrow> g1))
              (\<lambda>(cells2, rest1, g2). Inr (cells @ cells2, a # rest1, g2)))))"

text \<open>
  \<open>VpcResource.render_xml\<close>: the cells in the order they are emitted and the object
  afterwards.
\<close>

definition VpcResource_render_xml ::
    "config \<Rightarrow> (string list \<Rightarrow> string list) \<Rightarrow> VpcResource \<Rightarrow> int \<Rightarrow> int \<Rightarrow> int \<Rightarrow> int
      \<Rightarrow> error + (mxcell list \<times> VpcResource)" where
  "VpcResource_render_xml cfg set_iter v x y padding vpc_height_override =
     (let ((vpc_width, vpc_height0), v1) = VpcResource_get_dimensions v;
          vpc_x = x;
          vpc_y = y;
          vpc_height = max vpc_height0 vpc_height_override;
          small_vpc = check_empty v1;
          text_offset = (if small_vpc then SMALL_RESOURCE_TEXT_OFFSET else 50);
          lh = DIAGRAM_LINE_HEIGHT cfg;
          head_cells =
            DiagramContainer_render_xml (vpc_id v1) vpc_x vpc_y vpc_width vpc_height VPC_SHAPE
              55 36 text_offset (- 20)
            @ [insert_text (vpc_name v1) x y text_offset 20,
               insert_text (vpc_id v1) x (y + lh) text_offset 20,
               insert_text (vpc_cidr v1) x (y + 2 * lh) text_offset 20];
          dns_cells =
            (if \<not> small_vpc
             then (let (dn_cells, list_y) = render_text_list cfg x text_offset (domain_list v1) (y + 4 * lh);
                       (srv_cells, list_y2) =
                         render_text_list cfg x text_offset (dns_server_list v1) (list_y + lh)
                   in [insert_text ''Domain Names'' x (y + 3 * lh) text_offset 20]
                      @ dn_cells
                      @ [insert_text ''Domain Name Servers'' x list_y text_offset 20]
                      @ srv_cells)
             else []);
          nacl_x = vpc_x + RESOURCE_DISTRIBUTION + 2 * padding;
          nacl_y = vpc_y + padding;
          nacl_list_route_generator =
            fst (RouteGroup_init (- 1) (y - 2 * padding) Y_DIRECTION LINE_BUNDLE_SPACING (- 1))
      in bind_err (render_nacls cfg nacl_y (nacl_list v1) nacl_x nacl_list_route_generator)
           (\<lambda>(nacl_cells, nacls, g0).
         (let rt_x = vpc_x + padding div 2;
              rt_y = vpc_y + RESOURCE_DISTRIBUTION + padding;
              rt_list_y = rt_y;
              rt_route_generator =
                fst (RouteGroup_init (x + 2 * padding) (- 1) X_DIRECTION LINE_BUNDLE_SPACING (- 1));
              rt_list_route_generator =
                fst (RouteGroup_init (x - 3 * padding) (- 1) X_DIRECTION LINE_BUNDLE_SPACING (- 1));
              rt_gw_resource_route_generator =
                fst (RouteGroup_init (5 * (- padding)) (vpc_y + vpc_height + VPC_GUTTER_DIM) X_DIRECTION
                       LINE_BUNDLE_SPACING (vpc_x + vpc_width + VPC_GUTTER_DIM))
          in bind_err (sort_rt_resources set_iter v1) (\<lambda>sorted_rts.
             bind_err (render_rts cfg rt_x padding sorted_rts rt_y rt_list_y rt_route_generator
                         rt_list_route_generator rt_gw_resource_route_generator)
               (\<lambda>rt_cells.
             (let az_x = vpc_x + RESOURCE_DISTRIBUTION;
                  az_y = vpc_y + RESOURCE_DISTRIBUTION;
                  small_az_width = (vpc_width - 7 * padding) div 2;
                  total_subnets = sum_list (map get_total_subnets (az_list v1));
                  nacl_route_generator =
                    fst (RouteGroup_init
                           ((vpc_width + vpc_x - padding) - total_subnets * LINE_BUNDLE_SPACING)
                           ((vpc_y + 2 * padding) + total_subnets * LINE_BUNDLE_SPACING)
                           X_DIRECTION LINE_BUNDLE_SPACING (- 1))
              in bind_err (render_azs cfg az_x small_az_width padding (az_list v1) az_y False
                             nacl_route_generator)
                   (\<lambda>(az_cells, azs, g).
                      Inr (head_cells @ dns_cells @ nacl_cells @ rt_cells @ az_cells,
                           v1\<lparr>az_list := azs, nacl_list := nacls\<rparr>))))))))"

subsection \<open>Column hints (\<open>visualize_vpc\<close>)\<close>

text \<open>
  The loop \<open>for nacl in nacl_resources\<close> with its counter \<open>i\<close>: \<open>int(i / div)\<close> is a
  floor division of integers and raises ZeroDivisionError when \<open>div\<close> is 0.
\<close>

fun assign_cols :: "int \<Rightarrow> int \<Rightarrow> NAclResource list \<Rightarrow> error + NAclResource list" where
  "assign_cols d i [] = Inr []"
| "assign_cols d i (nacl # rest) =
     (if d = 0 then Inl ZeroDivisionError
      else bind_err (assign_cols d (i + 1) rest) (\<lambda>rest1.
             Inr (add_col_suggestion nacl (i div d) # rest1)))"

text \<open>
  \<open>div = int(math.ceil(float(len(nacl_resources)) / SUBNET_ALIGNMENT_COLS))\<close>: the float
  quotient is taken as the exact quotient (it raises ZeroDivisionError for zero columns).
\<close>

definition bucket_size :: "config \<Rightarrow> NAclResource list \<Rightarrow> error + int" where
  "bucket_size cfg nacl_resources =
     (if SUBNET_ALIGNMENT_COLS cfg = 0 then Inl ZeroDivisionError
      else Inr \<lceil>real (length nacl_resources) / real_of_int (SUBNET_ALIGNMENT_COLS cfg)\<rceil>)"

definition assign_col_suggestions :: "config \<Rightarrow> NAclResource list \<Rightarrow> error + NAclResource list" where
  "assign_col_suggestions cfg nacl_resources =
     bind_err (bucket_size cfg nacl_resources) (\<lambda>d. assign_cols d 0 nacl_resources)"

subsection \<open>Vocabulary of the properties\<close>

text \<open>A rectangle is \<open>(x, y, width, height)\<close>; two rectangles overlap when their interiors meet.\<close>

type_synonym rect = "int \<times> int \<times> int \<times> int"

definition overlap :: "rect \<Rightarrow> rect \<Rightarrow> bool" where
  "overlap r s =
     (case r of (x1, y1, w1, h1) \<Rightarrow> case s of (x2, y2, w2, h2) \<Rightarrow>
        x1 < x2 + w2 \<and> x2 < x1 + w1 \<and> y1 < y2 + h2 \<and> y2 < y1 + h1)"

fun no_overlap :: "rect list \<Rightarrow> bool" where
  "no_overlap [] = True"
| "no_overlap (r # rs) = ((\<forall>s \<in> set rs. \<not> overlap r s) \<and> no_overlap rs)"


text \<open>The rectangles of the vertices of a document whose style satisfies \<open>P\<close>, in order.\<close>

fun rects_of :: "(style \<Rightarrow> bool) \<Rightarrow> mxcell list \<Rightarrow> rect list" where
  "rects_of P [] = []"
| "rects_of P (Vertex st i p x y w h # cs) =
     (if P st then (x, y, w, h) # rects_of P cs else rects_of P cs)"
| "rects_of P (Edge i s t l ps # cs) = rects_of P cs"
| "rects_of P (LinkLine x1 y1 x2 y2 # cs) = rects_of P cs"

text \<open>
  The children a container places: a zone places its subnets (their rounded outlines);
  a network places its zones (dashed boxes), its NACL icons and its route-table icons.
  A subnet places its NAT-gateway icons.
\<close>

definition is_subnet_outline :: "style \<Rightarrow> bool" where
  "is_subnet_outline st = (st = Rounded)"

definition is_vpc_child :: "style \<Rightarrow> bool" where
  "is_vpc_child st = (st = AZDashed \<or> st = Shape NACL_SHAPE \<or> st = Shape ROUTE_TABLE_SHAPE)"

definition is_nat_icon :: "style \<Rightarrow> bool" where
  "is_nat_icon st = (st = Shape NAT_GATEWAY_SHAPE)"

definition is_local :: "route \<Rightarrow> bool" where
  "is_local r = (gw_id r = ''local'')"

text \<open>Concrete inputs used by the closed theorems below.\<close>

definition cfg0 :: config where
  "cfg0 = \<lparr>SUBNET_ALIGNMENT_COLS = 3, DIAGRAM_LINE_HEIGHT = 20, CONNECTION_LABELS = False,
           ADD_ROUTE_TABLE_CONNECTIONS = False\<rparr>"

definition nacl0 :: "string \<Rightarrow> NAclResource" where
  "nacl0 i = \<lparr>nacl_id = i, col_suggestion = 0, rules_ingress = [], rules_egress = [],
              nacl_name = [], nacl_self_x = 0\<rparr>"

definition rt_no_routes :: RouteTableResource where
  "rt_no_routes = \<lparr>rt_id = ''rtb-1'', rt_associations = [(''subnet-1'', ''rtbassoc-1'')],
                    routes = [], rt_name = [], az_connections = [''us-east-1a'']\<rparr>"

definition rt_unknown_zone :: RouteTableResource where
  "rt_unknown_zone = \<lparr>rt_id = ''rtb-2'', rt_associations = [(''subnet-9'', ''rtbassoc-2'')],
                       routes = [(''10.0.0.0/16'', ''active'', ''local'', ''Create Table'')],
                       rt_name = [], az_connections = ['''']\<rparr>"

definition rt_plain :: RouteTableResource where
  "rt_plain = \<lparr>rt_id = ''rtb-3'', rt_associations = [],
                routes = [(''10.0.0.0/16'', ''active'', ''local'', ''Create Table'')],
                rt_name = [], az_connections = []\<rparr>"

definition vpc_unknown_zone :: VpcResource where
  "vpc_unknown_zone =
     \<lparr>vpc_id = ''vpc-1'',
      az_list = [\<lparr>az_id = ''us-east-1a'', subnets = [], width_override = (False, 0)\<rparr>],
      nacl_list = [], rt_list = [rt_plain, rt_unknown_zone],
      vpc_name = ''main'', vpc_cidr = ''10.0.0.0/16'', dns_server_list = [], domain_list = []\<rparr>"

text \<open>
  The two components of the loop over \<open>self.az_list\<close> in
  \<open>VpcResource.get_dimensions\<close>: the heights added up and the running maximum width.
\<close>

definition az_heights :: "AZResource list \<Rightarrow> int" where
  "az_heights azs = sum_list (map (\<lambda>a. snd (AZResource_get_dimensions a)) azs)"

definition az_max_width :: "AZResource list \<Rightarrow> int \<Rightarrow> int" where
  "az_max_width azs mw = fold (\<lambda>a m. max m (fst (AZResource_get_dimensions a) + PADDING)) azs mw"

text \<open>
  Where the loop over \<open>self.az_list\<close> can still place a zone when it is at \<open>az_y\<close>:
  at or below \<open>az_y\<close>, and, when the left place of the row is taken (\<open>right\<close>), either
  in the right place of the row or below the row.
\<close>

definition az_ok :: "int \<Rightarrow> int \<Rightarrow> int \<Rightarrow> int \<Rightarrow> bool \<Rightarrow> rect \<Rightarrow> bool" where
  "az_ok az_x small_az_width padding az_y right r =
     (case r of (x, y, w, h) \<Rightarrow>
        az_x \<le> x \<and>
        (if right then (az_x + small_az_width + padding \<le> x \<and> az_y \<le> y) \<or> az_y + PADDING + padding \<le> y
         else az_y \<le> y))"

definition sub0 :: "string \<Rightarrow> int \<Rightarrow> SubnetResource" where
  "sub0 i c = \<lparr>sub_id = i, cidr = ''10.0.0.0/24'', az = ''us-east-1a'', ng_list = [],
              sub_col_suggestion = c, associations = [], sub_name = i\<rparr>"

definition az_two :: AZResource where
  "az_two = \<lparr>az_id = ''us-east-1a'', subnets = [sub0 ''subnet-1'' 0, sub0 ''subnet-2'' 1],
              width_override = (False, 0)\<rparr>"

definition az_none :: "string \<Rightarrow> AZResource" where
  "az_none i = \<lparr>az_id = i, subnets = [], width_override = (False, 0)\<rparr>"

definition rt_zone :: RouteTableResource where
  "rt_zone = \<lparr>rt_id = ''rtb-4'', rt_associations = [(''subnet-1'', ''rtbassoc-4'')],
               routes = [(''10.0.0.0/16'', ''active'', ''local'', ''Create Table'')],
               rt_name = [], az_connections = [''us-east-1a'']\<rparr>"

definition vpc_three :: VpcResource where
  "vpc_three =
     \<lparr>vpc_id = ''vpc-2'', az_list = [az_none ''us-east-1b'', az_none ''us-east-1c'', az_two],
      nacl_list = [nacl0 ''acl-1'', nacl0 ''acl-2''], rt_list = [rt_plain, rt_zone],
      vpc_name = ''main'', vpc_cidr = ''10.0.0.0/16'', dns_server_list = [], domain_list = []\<rparr>"





section \<open>Properties\<close>

lemmas geometry_defs = PADDING_def RESOURCE_DISTRIBUTION_def SUBNET_MIN_W_def SUBNET_MIN_H_def

text \<open>
  C10: \<open>SubnetResource.get_dimensions\<close> returns the width SUBNET_MIN_W (340) whatever the
  number of NAT gateways; the height is the maximum of SUBNET_MIN_H (80) and the number of
  NAT gateways times RESOURCE_DISTRIBUTION minus PADDING.
\<close>

theorem subnet_dimensions:
  "SubnetResource_get_dimensions s =
     (SUBNET_MIN_W, max SUBNET_MIN_H (int (length (ng_list s)) * RESOURCE_DISTRIBUTION - PADDING))
   \<and> SUBNET_MIN_W = 340 \<and> SUBNET_MIN_H = 80 \<and> RESOURCE_DISTRIBUTION = 180 \<and> PADDING = 60"
  by (simp add: SubnetResource_get_dimensions_def Let_def max_def geometry_defs)

lemma advance_direction [simp]: "starting_direction (advance g) = starting_direction g"
  by (simp add: advance_def Let_def)

lemma advance_spacing [simp]: "bundle_spacing (advance g) = bundle_spacing g"
  by (simp add: advance_def Let_def)

lemma advance_x: "current_x (advance g) = (if current_x g \<noteq> - 1 then current_x g + bundle_spacing g else current_x g)"
  by (simp add: advance_def Let_def)

lemma get_next_route_snd [simp]: "snd (get_next_route g ox oy) = advance g"
  by (simp add: get_next_route_def)

lemma get_next_routes_Cons:
  "get_next_routes g (p # os) =
     (fst (get_next_route g (fst p) (snd p)) # fst (get_next_routes (advance g) os),
      snd (get_next_routes (advance g) os))"
  by (cases p) (simp add: split_beta Let_def)

lemma routes_x_aux:
  "starting_direction g = X_DIRECTION \<Longrightarrow>
   (\<And>i. Suc i < length os \<Longrightarrow> current_x g + int i * bundle_spacing g \<noteq> - 1) \<Longrightarrow>
   length (fst (get_next_routes g os)) = length os \<and>
   (\<forall>i<length os. \<exists>rest. fst (get_next_routes g os) ! i
        = (current_x g + int i * bundle_spacing g, snd (os ! i)) # rest)"
proof (induction os arbitrary: g)
  case Nil
  then show ?case by simp
next
  case (Cons p os)
  have first: "\<exists>rest. fst (get_next_route g (fst p) (snd p)) = (current_x g, snd p) # rest"
    using Cons.prems(1) by (simp add: get_next_route_def)
  show ?case
  proof (cases "os = []")
    case True
    then show ?thesis using first by (simp add: get_next_routes_Cons)
  next
    case False
    have x0: "current_x g \<noteq> - 1" using Cons.prems(2) [of 0] False by simp
    have dir: "starting_direction (advance g) = X_DIRECTION" using Cons.prems(1) by simp
    have cx: "current_x (advance g) = current_x g + bundle_spacing g"
      using x0 by (simp add: advance_x)
    have later: "\<And>i. Suc i < length os \<Longrightarrow>
        current_x (advance g) + int i * bundle_spacing (advance g) \<noteq> - 1"
    proof -
      fix i assume "Suc i < length os"
      then have "current_x g + int (Suc i) * bundle_spacing g \<noteq> - 1"
        using Cons.prems(2) [of "Suc i"] by simp
      then show "current_x (advance g) + int i * bundle_spacing (advance g) \<noteq> - 1"
        by (simp add: cx algebra_simps)
    qed
    note IH = Cons.IH [OF dir later]
    show ?thesis
    proof (intro conjI allI impI)
      show "length (fst (get_next_routes g (p # os))) = length (p # os)"
        using IH by (simp add: get_next_routes_Cons)
    next
      fix i assume i: "i < length (p # os)"
      show "\<exists>rest. fst (get_next_routes g (p # os)) ! i
              = (current_x g + int i * bundle_spacing g, snd ((p # os) ! i)) # rest"
      proof (cases i)
        case 0
        then show ?thesis using first by (simp add: get_next_routes_Cons)
      next
        case (Suc j)
        then have "j < length os" using i by simp
        then obtain rest where "fst (get_next_routes (advance g) os) ! j
            = (current_x (advance g) + int j * bundle_spacing (advance g), snd (os ! j)) # rest"
          using IH by blast
        then show ?thesis using Suc by (simp add: get_next_routes_Cons cx algebra_simps)
      qed
    qed
  qed
qed

text \<open>
  C3 (amended): for a RouteGroup with axis X_DIRECTION, spacing \<open>s > 0\<close> and start \<open>x0\<close>,
  and \<open>k\<close> calls such that none of the stacked coordinates \<open>x0, x0 + s, ...\<close> of the
  calls before the last one is the sentinel \<open>-1\<close>, the \<open>i\<close>-th call (from 0) returns a
  path whose first waypoint is \<open>(x0 + i * s, origin_y)\<close>: the stacked coordinate grows by
  exactly \<open>s\<close> per call and is strictly increasing.
\<close>

theorem route_group_staggering:
  assumes "0 < s" and "\<And>i. Suc i < length os \<Longrightarrow> x0 + int i * s \<noteq> - 1"
  shows "length (fst (get_next_routes (fst (RouteGroup_init x0 y0 X_DIRECTION s b)) os)) = length os
     \<and> (\<forall>i<length os. \<exists>rest.
           fst (get_next_routes (fst (RouteGroup_init x0 y0 X_DIRECTION s b)) os) ! i
             = (x0 + int i * s, snd (os ! i)) # rest)
     \<and> (\<forall>i<length os. \<forall>j<length os. i < j \<longrightarrow> x0 + int i * s < x0 + int j * s)"
proof -
  let ?g = "fst (RouteGroup_init x0 y0 X_DIRECTION s b)"
  have d: "starting_direction ?g = X_DIRECTION" and c: "current_x ?g = x0" and sp: "bundle_spacing ?g = s"
    by (simp_all add: RouteGroup_init_def)
  have "length (fst (get_next_routes ?g os)) = length os \<and>
     (\<forall>i<length os. \<exists>rest. fst (get_next_routes ?g os) ! i
        = (current_x ?g + int i * bundle_spacing ?g, snd (os ! i)) # rest)"
    by (rule routes_x_aux [OF d]) (simp add: c sp assms(2))
  moreover have "\<forall>i<length os. \<forall>j<length os. i < j \<longrightarrow> x0 + int i * s < x0 + int j * s"
    using assms(1) by simp
  ultimately show ?thesis by (simp add: c sp)
qed

theorem route_group_staggering_witness:
  "fst (get_next_routes (fst (RouteGroup_init 100 (- 1) X_DIRECTION 10 (- 1))) [(0, 5), (0, 6), (0, 7)])
     = [[(100, 5)], [(110, 6)], [(120, 7)]]
   \<and> fst (get_next_routes (fst (RouteGroup_init (- 11) (- 1) X_DIRECTION 10 (- 1))) [(0, 5), (0, 6)])
     = [[(- 11, 5)], [(- 1, 6)]]"
proof -
  have s: "(0::int) < 10" by simp
  have h: "\<And>i. Suc i < length [(0::int, 5::int), (0, 6), (0, 7)] \<Longrightarrow> (100::int) + int i * 10 \<noteq> - 1"
    by presburger
  have h2: "\<And>i. Suc i < length [(0::int, 5::int), (0, 6)] \<Longrightarrow> (- 11::int) + int i * 10 \<noteq> - 1"
    by simp
  note t = route_group_staggering [where ?x0.0 = 100 and s = 10 and os = "[(0, 5), (0, 6), (0, 7)]"
      and ?y0.0 = "- 1" and b = "- 1", OF s h]
  note t2 = route_group_staggering [where ?x0.0 = "- 11" and s = 10 and os = "[(0, 5), (0, 6)]"
      and ?y0.0 = "- 1" and b = "- 1", OF s h2]
  show ?thesis
    using t t2 by (simp add: RouteGroup_init_def get_next_route_def advance_def X_DIRECTION_def Let_def)
qed

text \<open>
  C3 as stated fails when the stacked coordinate reaches the sentinel: started at
  \<open>-11\<close> with spacing 10, the second and the third call both stack at \<open>-1\<close>.
\<close>

theorem route_group_sentinel_counterexample:
  "fst (get_next_routes (fst (RouteGroup_init (- 11) (- 1) X_DIRECTION 10 (- 1))) [(0, 0), (0, 0), (0, 0)])
     = [[(- 11, 0)], [(- 1, 0)], [(- 1, 0)]]"
  by (simp add: RouteGroup_init_def get_next_route_def advance_def X_DIRECTION_def Let_def)

lemma bad_direction_routes:
  "starting_direction g \<noteq> X_DIRECTION \<Longrightarrow> starting_direction g \<noteq> Y_DIRECTION \<Longrightarrow>
   fst (get_next_routes g os) = replicate (length os) []"
proof (induction os arbitrary: g)
  case Nil
  then show ?case by simp
next
  case (Cons p os)
  have "fst (get_next_routes (advance g) os) = replicate (length os) []"
    using Cons.prems by (intro Cons.IH) simp_all
  moreover have "fst (get_next_route g (fst p) (snd p)) = []"
    using Cons.prems by (simp add: get_next_route_def)
  ultimately show ?case by (simp add: get_next_routes_Cons)
qed

text \<open>
  C9: a RouteGroup constructed with an axis selector that is neither X_DIRECTION nor
  Y_DIRECTION prints one warning (construction is total: nothing is raised), every later
  \<open>get_next_route\<close> returns the empty list, and a connection rendered with the empty
  list has no points.
\<close>

theorem invalid_axis_degrades:
  assumes "d \<noteq> X_DIRECTION" and "d \<noteq> Y_DIRECTION"
  shows "(\<exists>w. snd (RouteGroup_init sx sy d sp br) = [w])
     \<and> fst (get_next_routes (fst (RouteGroup_init sx sy d sp br)) os) = replicate (length os) []
     \<and> DiagramObject_render_xml_connection cfg sid oid txt []
         = Edge (''connect'' @ sid @ ''to'' @ oid) sid oid (if CONNECTION_LABELS cfg then txt else []) None"
proof -
  have "starting_direction (fst (RouteGroup_init sx sy d sp br)) = d"
    by (simp add: RouteGroup_init_def)
  then have "fst (get_next_routes (fst (RouteGroup_init sx sy d sp br)) os) = replicate (length os) []"
    using assms by (intro bad_direction_routes) simp_all
  then show ?thesis
    using assms by (simp add: RouteGroup_init_def DiagramObject_render_xml_connection_def connection_def)
qed

theorem invalid_axis_degrades_witness:
  "snd (RouteGroup_init 5 7 2 10 (- 1)) \<noteq> []
   \<and> fst (get_next_routes (fst (RouteGroup_init 5 7 2 10 (- 1))) [(1, 2), (3, 4)]) = [[], []]"
proof -
  have a: "(2::int) \<noteq> X_DIRECTION" and b: "(2::int) \<noteq> Y_DIRECTION"
    by (simp_all add: X_DIRECTION_def Y_DIRECTION_def)
  from invalid_axis_degrades [OF a b, of 5 7 10 "- 1" "[(1, 2), (3, 4)]"]
  show ?thesis by auto
qed

text \<open>
  C7 (amended): when the leading segment of one list does not parse as an integer and
  the leading segment of the other does, the list with the non-numeric segment is ordered
  lesser (\<open>-1\<close> as first argument, \<open>1\<close> as second); against an exhausted list the
  comparison is \<open>0\<close> (equal).
\<close>

theorem cmp_cidr_non_numeric:
  assumes "py_int a = None" and "py_int b = Some n"
  shows "cmp_cidr (a # as) (b # bs) = - 1 \<and> cmp_cidr (b # bs) (a # as) = 1
     \<and> cmp_cidr (a # as) [] = 0 \<and> cmp_cidr [] (a # as) = 0"
  using assms by simp

lemma py_int_x: "py_int ''x'' = None"
  by (simp add: py_int_def strip_def is_space_def is_digit_def)

lemma py_int_5: "py_int ''5'' = Some 5"
  by (simp add: py_int_def strip_def is_space_def is_digit_def)

theorem cmp_cidr_non_numeric_witness:
  "cmp_cidr [''x'', ''1''] [''5'', ''2''] = - 1 \<and> cmp_cidr [''5'', ''2''] [''x'', ''1''] = 1
     \<and> cmp_cidr [''x'', ''1''] [] = 0 \<and> cmp_cidr [] [''x'', ''1''] = 0"
  using cmp_cidr_non_numeric [OF py_int_x py_int_5] by blast

text \<open>
  C7 as stated fails: the non-numeric segment \<open>x\<close> is not ordered greater than the
  numeric peer \<open>5\<close>, and it is not ordered lesser than the exhausted list.
\<close>

theorem cmp_cidr_non_numeric_counterexample:
  "py_int ''x'' = None \<and> py_int ''5'' = Some 5
   \<and> \<not> (0 < cmp_cidr [''x''] [''5'']) \<and> \<not> (cmp_cidr [''5''] [''x''] < 0)
   \<and> \<not> (cmp_cidr [''x''] [] < 0) \<and> \<not> (0 < cmp_cidr [] [''x''])"
  by (simp add: py_int_x py_int_5)

lemma local_fold:
  "r \<le> length xs \<Longrightarrow>
   fold local_step [0..<r] xs
     = rev (filter is_local (take r xs)) @ filter (\<lambda>x. \<not> is_local x) (take r xs) @ drop r xs"
proof (induction r)
  case 0
  then show ?case by simp
next
  case (Suc r)
  then have r: "r < length xs" by simp
  define A where "A = rev (filter is_local (take r xs)) @ filter (\<lambda>x. \<not> is_local x) (take r xs)"
  have len: "length A = r"
    using r sum_length_filter_compl [of is_local "take r xs"] by (simp add: A_def)
  have st: "fold local_step [0..<r] xs = A @ drop r xs" using Suc by (simp add: A_def)
  have dr: "drop r xs = xs ! r # drop (Suc r) xs" using r by (simp add: Cons_nth_drop_Suc)
  have nth: "(A @ drop r xs) ! r = xs ! r"
    using len dr by (simp add: nth_append)
  have tk: "take r (A @ drop r xs) = A" using len by simp
  have dp: "drop (Suc r) (A @ drop r xs) = drop (Suc r) xs"
    using len by simp
  have "fold local_step [0..<Suc r] xs = local_step r (A @ drop r xs)"
    using st by simp
  also have "\<dots> = (if is_local (xs ! r) then xs ! r # A @ drop (Suc r) xs else A @ drop r xs)"
    unfolding local_step_def nth tk dp by (simp add: is_local_def)
  also have "\<dots> = rev (filter is_local (take (Suc r) xs))
        @ filter (\<lambda>x. \<not> is_local x) (take (Suc r) xs) @ drop (Suc r) xs"
    using r dr by (simp add: take_Suc_conv_app_nth A_def)
  finally show ?case .
qed

lemma sort_routes_local_first:
  "sort_routes rt =
     (let cidr_sorted =
            sorted_cmp (\<lambda>cidr_one cidr_two.
                          cmp_cidr (split_on CHR ''.'' (fst cidr_one)) (split_on CHR ''.'' (fst cidr_two)))
                       (routes rt)
      in rev (filter is_local cidr_sorted) @ filter (\<lambda>x. \<not> is_local x) cidr_sorted)"
  by (simp add: sort_routes_def Let_def local_fold)

lemmas parse_defs = py_int_def strip_def is_space_def is_digit_def

lemma split_examples:
  "split_on CHR ''.'' ''10.0.0.0/16'' = [''10'', ''0'', ''0'', ''0/16'']"
  "split_on CHR ''.'' ''0.0.0.0/0'' = [''0'', ''0'', ''0'', ''0/0'']"
  "split_on CHR ''.'' ''192.168.0.0/24'' = [''192'', ''168'', ''0'', ''0/24'']"
  by simp_all

lemma py_int_examples:
  "py_int ''10'' = Some 10" "py_int ''0'' = Some 0" "py_int ''192'' = Some 192"
  by (simp_all add: parse_defs)

lemma three_orders:
  assumes "distinct xs" and "set xs = {a, b, c}" and "a \<noteq> b" and "a \<noteq> c" and "b \<noteq> c"
  shows "xs \<in> {[a, b, c], [a, c, b], [b, a, c], [b, c, a], [c, a, b], [c, b, a]}"
proof -
  have "length xs = 3"
    using distinct_card [OF assms(1)] assms(2-5) by simp
  then obtain x y z where xs: "xs = [x, y, z]"
    by (metis (no_types, opaque_lifting) length_0_conv length_Suc_conv numeral_3_eq_3)
  have "x \<in> {a, b, c}" "y \<in> {a, b, c}" "z \<in> {a, b, c}"
    using assms(2) by (auto simp: xs)
  moreover have "x \<noteq> y" "x \<noteq> z" "y \<noteq> z" using assms(1) by (auto simp: xs)
  moreover have "a \<in> {x, y, z}" "b \<in> {x, y, z}" "c \<in> {x, y, z}"
    using assms(2) by (auto simp: xs)
  ultimately show ?thesis unfolding xs by auto
qed

lemma sorted_three:
  assumes "xs \<in> {[a, b, c], [a, c, b], [b, a, c], [b, c, a], [c, a, b], [c, b, a]}"
    and "fst a = ''0.0.0.0/0''" and "fst b = ''10.0.0.0/16''" and "fst c = ''192.168.0.0/24''"
  shows "sorted_cmp (\<lambda>cidr_one cidr_two.
            cmp_cidr (split_on CHR ''.'' (fst cidr_one)) (split_on CHR ''.'' (fst cidr_two))) xs
         = [a, b, c]"
  using assms by (auto simp: sorted_cmp_def split_examples py_int_examples)

text \<open>
  C6: a route table holding exactly the routes 10.0.0.0/16, 0.0.0.0/0 and 192.168.0.0/24,
  registered in any order. When the gateway of 0.0.0.0/0 is \<open>local\<close> and the other two
  are not, \<open>sort_routes\<close> returns 0.0.0.0/0, 10.0.0.0/16, 192.168.0.0/24. The routes are in
  ascending CIDR order with the \<open>local\<close> route moved to the front whatever its rank: when
  instead 192.168.0.0/24 (or 10.0.0.0/16) is the \<open>local\<close> route, it comes first and the
  other two follow in ascending order.
\<close>

theorem sort_routes_example:
  assumes "distinct (routes rt)"
    and "set (routes rt) = {(''10.0.0.0/16'', s1, g1, o1), (''0.0.0.0/0'', s2, g2, o2),
                            (''192.168.0.0/24'', s3, g3, o3)}"
  shows "(g2 = ''local'' \<and> g1 \<noteq> ''local'' \<and> g3 \<noteq> ''local'' \<longrightarrow>
            sort_routes rt = [(''0.0.0.0/0'', s2, g2, o2), (''10.0.0.0/16'', s1, g1, o1),
                              (''192.168.0.0/24'', s3, g3, o3)])
       \<and> (g3 = ''local'' \<and> g1 \<noteq> ''local'' \<and> g2 \<noteq> ''local'' \<longrightarrow>
            sort_routes rt = [(''192.168.0.0/24'', s3, g3, o3), (''0.0.0.0/0'', s2, g2, o2),
                              (''10.0.0.0/16'', s1, g1, o1)])
       \<and> (g1 = ''local'' \<and> g2 \<noteq> ''local'' \<and> g3 \<noteq> ''local'' \<longrightarrow>
            sort_routes rt = [(''10.0.0.0/16'', s1, g1, o1), (''0.0.0.0/0'', s2, g2, o2),
                              (''192.168.0.0/24'', s3, g3, o3)])
       \<and> (g1 \<noteq> ''local'' \<and> g2 \<noteq> ''local'' \<and> g3 \<noteq> ''local'' \<longrightarrow>
            sort_routes rt = [(''0.0.0.0/0'', s2, g2, o2), (''10.0.0.0/16'', s1, g1, o1),
                              (''192.168.0.0/24'', s3, g3, o3)])"
proof -
  let ?a = "(''0.0.0.0/0'', s2, g2, o2)"
  let ?b = "(''10.0.0.0/16'', s1, g1, o1)"
  let ?c = "(''192.168.0.0/24'', s3, g3, o3)"
  have set': "set (routes rt) = {?a, ?b, ?c}" using assms(2) by auto
  have "routes rt \<in> {[?a, ?b, ?c], [?a, ?c, ?b], [?b, ?a, ?c], [?b, ?c, ?a], [?c, ?a, ?b], [?c, ?b, ?a]}"
    by (rule three_orders [OF assms(1) set']) simp_all
  then have "sorted_cmp (\<lambda>cidr_one cidr_two.
            cmp_cidr (split_on CHR ''.'' (fst cidr_one)) (split_on CHR ''.'' (fst cidr_two))) (routes rt)
         = [?a, ?b, ?c]"
    by (rule sorted_three) simp_all
  then have "sort_routes rt = rev (filter is_local [?a, ?b, ?c]) @ filter (\<lambda>x. \<not> is_local x) [?a, ?b, ?c]"
    by (simp add: sort_routes_local_first Let_def)
  then show ?thesis by (simp add: is_local_def gw_id_def)
qed

theorem sort_routes_example_witness:
  "sort_routes \<lparr>rt_id = ''rtb-1'', rt_associations = [],
      routes = [(''192.168.0.0/24'', ''active'', ''pcx-1'', ''Create Route''),
                (''10.0.0.0/16'', ''active'', ''igw-1'', ''Create Route''),
                (''0.0.0.0/0'', ''active'', ''local'', ''Create Table'')],
      rt_name = ''main'', az_connections = []\<rparr>
   = [(''0.0.0.0/0'', ''active'', ''local'', ''Create Table''),
      (''10.0.0.0/16'', ''active'', ''igw-1'', ''Create Route''),
      (''192.168.0.0/24'', ''active'', ''pcx-1'', ''Create Route'')]
   \<and> sort_routes \<lparr>rt_id = ''rtb-2'', rt_associations = [],
      routes = [(''0.0.0.0/0'', ''active'', ''igw-1'', ''Create Route''),
                (''192.168.0.0/24'', ''active'', ''local'', ''Create Table''),
                (''10.0.0.0/16'', ''active'', ''pcx-1'', ''Create Route'')],
      rt_name = ''main'', az_connections = []\<rparr>
   = [(''192.168.0.0/24'', ''active'', ''local'', ''Create Table''),
      (''0.0.0.0/0'', ''active'', ''igw-1'', ''Create Route''),
      (''10.0.0.0/16'', ''active'', ''pcx-1'', ''Create Route'')]"
proof -
  let ?rt1 = "\<lparr>rt_id = ''rtb-1'', rt_associations = [],
      routes = [(''192.168.0.0/24'', ''active'', ''pcx-1'', ''Create Route''),
                (''10.0.0.0/16'', ''active'', ''igw-1'', ''Create Route''),
                (''0.0.0.0/0'', ''active'', ''local'', ''Create Table'')],
      rt_name = ''main'', az_connections = []\<rparr>"
  let ?rt2 = "\<lparr>rt_id = ''rtb-2'', rt_associations = [],
      routes = [(''0.0.0.0/0'', ''active'', ''igw-1'', ''Create Route''),
                (''192.168.0.0/24'', ''active'', ''local'', ''Create Table''),
                (''10.0.0.0/16'', ''active'', ''pcx-1'', ''Create Route'')],
      rt_name = ''main'', az_connections = []\<rparr>"
  have d1: "distinct (routes ?rt1)" by simp
  have s1: "set (routes ?rt1) = {(''10.0.0.0/16'', ''active'', ''igw-1'', ''Create Route''),
      (''0.0.0.0/0'', ''active'', ''local'', ''Create Table''),
      (''192.168.0.0/24'', ''active'', ''pcx-1'', ''Create Route'')}" by auto
  have d2: "distinct (routes ?rt2)" by simp
  have s2: "set (routes ?rt2) = {(''10.0.0.0/16'', ''active'', ''pcx-1'', ''Create Route''),
      (''0.0.0.0/0'', ''active'', ''igw-1'', ''Create Route''),
      (''192.168.0.0/24'', ''active'', ''local'', ''Create Table'')}" by auto
  show ?thesis
    using sort_routes_example [OF d1 s1] sort_routes_example [OF d2 s2] by simp
qed

lemma rt_render_no_routes:
  "routes rt = [] \<Longrightarrow>
   RouteTableResource_render_xml cfg rt x y list_y g1 g2 g3 padding = Inl UnboundLocalError"
  by (simp add: RouteTableResource_render_xml_def bind_err_def Let_def split_beta)

lemma sort_unknown_zone:
  "set_iter [''''] = [''''] \<Longrightarrow> sort_rt_resources set_iter vpc_unknown_zone = Inl ValueError"
  by (simp add: sort_rt_resources_def vpc_unknown_zone_def check_empty_def sorted_cmp_err_def
        bind_err_def get_suggested_az_def rt_plain_def rt_unknown_zone_def NO_AZ_def)

text \<open>
  C4 fails on the code: \<open>RouteTableResource.render_xml\<close> raises UnboundLocalError for
  every route table whose route list is empty, and \<open>VpcResource.sort_rt_resources\<close>
  raises ValueError for a network with two route tables one of which is associated with a
  subnet of no recorded zone (zone \<open>""\<close>).
\<close>

theorem rendering_raises:
  assumes "routes rt = []" and "set_iter [''''] = ['''']"
  shows "RouteTableResource_render_xml cfg rt x y list_y g1 g2 g3 padding = Inl UnboundLocalError
       \<and> sort_rt_resources set_iter vpc_unknown_zone = Inl ValueError"
  using assms by (simp add: rt_render_no_routes sort_unknown_zone)

theorem rendering_raises_witness:
  "RouteTableResource_render_xml cfg0 rt_no_routes 730 940 940
      (fst (RouteGroup_init 820 (- 1) X_DIRECTION LINE_BUNDLE_SPACING (- 1)))
      (fst (RouteGroup_init 520 (- 1) X_DIRECTION LINE_BUNDLE_SPACING (- 1)))
      (fst (RouteGroup_init (- 300) 2000 X_DIRECTION LINE_BUNDLE_SPACING 2000)) PADDING
     = Inl UnboundLocalError
   \<and> sort_rt_resources remdups vpc_unknown_zone = Inl ValueError"
proof -
  have a: "routes rt_no_routes = []" by (simp add: rt_no_routes_def)
  have b: "remdups [''''] = ['''']" by simp
  show ?thesis by (rule rendering_raises [where rt = rt_no_routes and set_iter = remdups, OF a b])
qed

lemma assign_cols_ok:
  "d \<noteq> 0 \<Longrightarrow>
   \<exists>res. assign_cols d i ns = Inr res \<and> length res = length ns
      \<and> (\<forall>k<length ns. res ! k = add_col_suggestion (ns ! k) ((i + int k) div d))"
proof (induction ns arbitrary: i)
  case Nil
  then show ?case by simp
next
  case (Cons n ns)
  from Cons.IH [OF Cons.prems, of "i + 1"] obtain res where
    r: "assign_cols d (i + 1) ns = Inr res" "length res = length ns"
       "\<forall>k<length ns. res ! k = add_col_suggestion (ns ! k) ((i + 1 + int k) div d)"
    by blast
  have "assign_cols d i (n # ns) = Inr (add_col_suggestion n (i div d) # res)"
    using Cons.prems r(1) by (simp add: bind_err_def)
  moreover have "\<forall>k<length (n # ns). (add_col_suggestion n (i div d) # res) ! k
        = add_col_suggestion ((n # ns) ! k) ((i + int k) div d)"
  proof (intro allI impI)
    fix k assume "k < length (n # ns)"
    then show "(add_col_suggestion n (i div d) # res) ! k
        = add_col_suggestion ((n # ns) ! k) ((i + int k) div d)"
      using r(3) by (cases k) (simp_all add: algebra_simps)
  qed
  ultimately show ?case using r(2) by simp
qed

lemma assign_cols_Inr_nonzero:
  "assign_cols d i ns = Inr res \<Longrightarrow> ns \<noteq> [] \<Longrightarrow> d \<noteq> 0"
  by (cases ns) (auto split: if_splits)

lemma bucket_positive:
  assumes "0 < c" and "ns \<noteq> []"
  shows "\<lceil>real (length ns) / real_of_int c\<rceil> \<noteq> 0"
proof -
  have "0 < real (length ns) / real_of_int c" using assms by simp
  then have "0 < \<lceil>real (length ns) / real_of_int c\<rceil>" by (simp add: less_ceiling_iff)
  then show ?thesis by linarith
qed

lemma assign_total:
  assumes c: "0 < SUBNET_ALIGNMENT_COLS cfg"
  shows "\<exists>res. assign_col_suggestions cfg ns = Inr res"
proof (cases ns)
  case Nil
  then show ?thesis using c by (simp add: assign_col_suggestions_def bucket_size_def bind_err_def)
next
  case (Cons n ns')
  then have "ns \<noteq> []" by simp
  then have "\<lceil>real (length ns) / real_of_int (SUBNET_ALIGNMENT_COLS cfg)\<rceil> \<noteq> 0"
    by (rule bucket_positive [OF c])
  from assign_cols_ok [OF this, of 0 ns] show ?thesis
    using c by (auto simp: assign_col_suggestions_def bucket_size_def bind_err_def)
qed

lemma assign_result:
  assumes a: "assign_col_suggestions cfg ns = Inr res"
  shows "bucket_size cfg ns = Inr \<lceil>real (length ns) / real_of_int (SUBNET_ALIGNMENT_COLS cfg)\<rceil>
        \<and> length res = length ns
        \<and> (\<forall>i<length ns. col_suggestion (res ! i)
              = int i div \<lceil>real (length ns) / real_of_int (SUBNET_ALIGNMENT_COLS cfg)\<rceil>)"
proof -
  let ?c = "SUBNET_ALIGNMENT_COLS cfg"
  let ?d = "\<lceil>real (length ns) / real_of_int ?c\<rceil>"
  have c: "?c \<noteq> 0"
    using a by (auto simp: assign_col_suggestions_def bucket_size_def bind_err_def split: if_splits)
  then have b: "bucket_size cfg ns = Inr ?d" by (simp add: bucket_size_def)
  have ac: "assign_cols ?d 0 ns = Inr res"
    using a b by (simp add: assign_col_suggestions_def bind_err_def)
  have "length res = length ns \<and> (\<forall>i<length ns. col_suggestion (res ! i) = int i div ?d)"
  proof (cases ns)
    case Nil
    then show ?thesis using ac by simp
  next
    case (Cons n ns')
    then have "?d \<noteq> 0" using assign_cols_Inr_nonzero [OF ac] by simp
    from assign_cols_ok [OF this, of 0 ns] ac show ?thesis
      by (auto simp: add_col_suggestion_def)
  qed
  then show ?thesis using b by simp
qed

lemma assign_7_3:
  assumes h: "SUBNET_ALIGNMENT_COLS cfg = 3" "length ns = 7"
  shows "bucket_size cfg ns = Inr 3
        \<and> (\<exists>res. assign_col_suggestions cfg ns = Inr res
              \<and> map col_suggestion res = [0, 0, 0, 1, 1, 1, 2])"
proof -
  have b: "bucket_size cfg ns = Inr 3" using h by (simp add: bucket_size_def)
  from assign_cols_ok [of 3 0 ns] obtain res where
    r: "assign_cols 3 0 ns = Inr res" "length res = length ns"
       "\<forall>k<length ns. res ! k = add_col_suggestion (ns ! k) ((0 + int k) div 3)"
    by auto
  have len: "length res = 7" using r(2) h by simp
  have "map col_suggestion res = map col_suggestion (map ((!) res) [0..<length res])"
    by (simp only: map_nth)
  also have "\<dots> = map (\<lambda>k. col_suggestion (res ! k)) [0..<length res]"
    by (simp add: comp_def)
  also have "\<dots> = map (\<lambda>k. int k div 3) [0..<7]"
    using r(3) h len by (auto simp: add_col_suggestion_def)
  also have "\<dots> = [0, 0, 0, 1, 1, 1, 2]" by (simp add: upt_rec)
  finally have "map col_suggestion res = [0, 0, 0, 1, 1, 1, 2]" .
  then show ?thesis
    using r(1) b by (simp add: assign_col_suggestions_def bind_err_def)
qed

text \<open>
  C8: the column hints of \<open>n\<close> ACLs with \<open>c\<close> desired columns: the bucket size is
  \<open>ceil(n / c)\<close> and the ACL at position \<open>i\<close> (from 0) receives column
  \<open>floor(i / ceil(n / c))\<close>, whenever the assignment returns, and it returns for every
  \<open>c > 0\<close>; for 7 ACLs and 3 columns the bucket size is 3 and the columns are
  0, 0, 0, 1, 1, 1, 2.
\<close>

theorem column_bucketing:
  "(0 < SUBNET_ALIGNMENT_COLS cfg \<longrightarrow> (\<exists>res. assign_col_suggestions cfg ns = Inr res))
   \<and> (assign_col_suggestions cfg ns = Inr res \<longrightarrow>
        bucket_size cfg ns = Inr \<lceil>real (length ns) / real_of_int (SUBNET_ALIGNMENT_COLS cfg)\<rceil>
        \<and> length res = length ns
        \<and> (\<forall>i<length ns. col_suggestion (res ! i)
              = int i div \<lceil>real (length ns) / real_of_int (SUBNET_ALIGNMENT_COLS cfg)\<rceil>))
   \<and> (SUBNET_ALIGNMENT_COLS cfg = 3 \<and> length ns = 7 \<longrightarrow>
        bucket_size cfg ns = Inr 3
        \<and> (\<exists>res. assign_col_suggestions cfg ns = Inr res
              \<and> map col_suggestion res = [0, 0, 0, 1, 1, 1, 2]))"
  using assign_total [of cfg ns] assign_result [of cfg ns res] assign_7_3 [of cfg ns] by blast

theorem column_bucketing_witness:
  "\<exists>res. assign_col_suggestions
            \<lparr>SUBNET_ALIGNMENT_COLS = 3, DIAGRAM_LINE_HEIGHT = 20, CONNECTION_LABELS = False,
             ADD_ROUTE_TABLE_CONNECTIONS = False\<rparr>
            (map nacl0 [''a'', ''b'', ''c'', ''d'', ''e'', ''f'', ''g'']) = Inr res
         \<and> map col_suggestion res = [0, 0, 0, 1, 1, 1, 2]"
  using column_bucketing [of "\<lparr>SUBNET_ALIGNMENT_COLS = 3, DIAGRAM_LINE_HEIGHT = 20,
      CONNECTION_LABELS = False, ADD_ROUTE_TABLE_CONNECTIONS = False\<rparr>"
      "map nacl0 [''a'', ''b'', ''c'', ''d'', ''e'', ''f'', ''g'']"]
  by simp

lemma az_dims_override:
  "AZResource_get_dimensions (override_width a w) = (w, snd (AZResource_get_dimensions a))"
  by (simp add: AZResource_get_dimensions_def override_width_def split_beta Let_def)

lemma vpc_fold:
  "fold (\<lambda>a (ch, mw).
           (let (w, h) = AZResource_get_dimensions a
            in (ch + h, if w + PADDING > mw then w + PADDING else mw))) azs (ch, mw)
   = (ch + az_heights azs, az_max_width azs mw)"
proof (induction azs arbitrary: ch mw)
  case Nil
  then show ?case by (simp add: az_heights_def az_max_width_def)
next
  case (Cons a azs)
  show ?case
    using Cons.IH
    by (simp add: az_heights_def az_max_width_def split_beta Let_def max_def algebra_simps)
qed

lemma az_max_width_ge: "mw \<le> az_max_width azs mw"
proof (induction azs arbitrary: mw)
  case Nil
  then show ?case by (simp add: az_max_width_def)
next
  case (Cons a azs)
  have "max mw (fst (AZResource_get_dimensions a) + PADDING)
          \<le> az_max_width azs (max mw (fst (AZResource_get_dimensions a) + PADDING))"
    by (rule Cons.IH)
  then show ?case by (simp add: az_max_width_def)
qed

lemma az_heights_override:
  "az_heights (map (\<lambda>a. override_width a w) azs) = az_heights azs"
  by (simp add: az_heights_def comp_def az_dims_override)

lemma az_max_width_override:
  "mw \<le> w + PADDING \<Longrightarrow>
   az_max_width (map (\<lambda>a. override_width a w) azs) mw = (if azs = [] then mw else w + PADDING)"
proof (induction azs arbitrary: mw)
  case Nil
  then show ?case by (simp add: az_max_width_def)
next
  case (Cons a azs)
  have "az_max_width (map (\<lambda>a. override_width a w) azs) (w + PADDING)
          = (if azs = [] then w + PADDING else w + PADDING)"
    by (rule Cons.IH) simp
  then show ?case using Cons.prems by (simp add: az_max_width_def az_dims_override max_def)
qed

lemma vpc_dims_unfold:
  assumes "\<not> check_empty v"
  shows "VpcResource_get_dimensions v =
     (let ch = RESOURCE_DISTRIBUTION + 2 * PADDING + az_heights (az_list v);
          mw = az_max_width (az_list v) (RESOURCE_DISTRIBUTION + PADDING);
          nw = int (length (nacl_list v)) * RESOURCE_DISTRIBUTION;
          rh = int (length (rt_list v)) * RESOURCE_DISTRIBUTION
      in ((max mw nw + 5 * PADDING, max ch rh + 2 * PADDING),
          v\<lparr>az_list := (if nw > mw then map (\<lambda>a. override_width a (nw - PADDING)) (az_list v)
                         else az_list v)\<rparr>))"
  using assms unfolding VpcResource_get_dimensions_def vpc_fold
  by (simp add: Let_def max_def)

text \<open>
  C5: sizing is idempotent. \<open>SubnetResource.get_dimensions\<close> and
  \<open>AZResource.get_dimensions\<close> assign nothing (they are functions of the object), and a
  second call of \<open>VpcResource.get_dimensions\<close> right after the first returns the same
  pair and leaves the object, with the width overrides the first call made, as it is; the
  zones report the same dimensions after it.
\<close>

theorem sizing_idempotent:
  "fst (VpcResource_get_dimensions (snd (VpcResource_get_dimensions v)))
     = fst (VpcResource_get_dimensions v)
   \<and> snd (VpcResource_get_dimensions (snd (VpcResource_get_dimensions v)))
     = snd (VpcResource_get_dimensions v)
   \<and> map AZResource_get_dimensions (az_list (snd (VpcResource_get_dimensions (snd (VpcResource_get_dimensions v)))))
     = map AZResource_get_dimensions (az_list (snd (VpcResource_get_dimensions v)))"
proof (cases "check_empty v")
  case True
  then show ?thesis by (simp add: VpcResource_get_dimensions_def)
next
  case False
  define mw where "mw = az_max_width (az_list v) (RESOURCE_DISTRIBUTION + PADDING)"
  define nw where "nw = int (length (nacl_list v)) * RESOURCE_DISTRIBUTION"
  define v1 where "v1 = snd (VpcResource_get_dimensions v)"
  have mw_ge: "RESOURCE_DISTRIBUTION + PADDING \<le> mw"
    unfolding mw_def by (rule az_max_width_ge)
  have v1: "v1 = v\<lparr>az_list := (if nw > mw then map (\<lambda>a. override_width a (nw - PADDING)) (az_list v)
                         else az_list v)\<rparr>"
    unfolding v1_def by (simp add: vpc_dims_unfold [OF False] Let_def mw_def nw_def)
  have ne: "\<not> check_empty v1"
    using False by (auto simp: v1 check_empty_def)
  have same: "VpcResource_get_dimensions v1 = (fst (VpcResource_get_dimensions v), v1)"
  proof (cases "nw > mw")
    case gt: True
    have le: "RESOURCE_DISTRIBUTION + PADDING \<le> nw - PADDING + PADDING" using gt mw_ge by simp
    have azs1: "az_list v1 = map (\<lambda>a. override_width a (nw - PADDING)) (az_list v)"
      using gt by (simp add: v1)
    have mw1: "az_max_width (az_list v1) (RESOURCE_DISTRIBUTION + PADDING)
                 = (if az_list v = [] then RESOURCE_DISTRIBUTION + PADDING else nw)"
      unfolding azs1 using az_max_width_override [OF le, of "az_list v"] by simp
    have mw0: "az_list v = [] \<Longrightarrow> mw = RESOURCE_DISTRIBUTION + PADDING"
      by (simp add: mw_def az_max_width_def)
    show ?thesis
    proof (cases "az_list v = []")
      case True
      then have "v1 = v" using gt by (simp add: v1)
      then show ?thesis
        by (simp add: vpc_dims_unfold [OF False] Let_def mw_def [symmetric] nw_def [symmetric]
              True gt v1 [symmetric])
    next
      case nonempty: False
      have h1: "az_heights (az_list v1) = az_heights (az_list v)"
        by (simp add: azs1 az_heights_override)
      have lens: "nacl_list v1 = nacl_list v" "rt_list v1 = rt_list v" by (simp_all add: v1)
      show ?thesis
        using gt nonempty
        by (simp add: vpc_dims_unfold [OF ne] vpc_dims_unfold [OF False] Let_def mw1 h1 lens
              mw_def [symmetric] nw_def [symmetric] max_def)
    qed
  next
    case le: False
    then have "v1 = v" by (simp add: v1)
    then show ?thesis
      using le by (simp add: vpc_dims_unfold [OF False] Let_def mw_def [symmetric] nw_def [symmetric])
  qed
  then show ?thesis by (simp add: v1_def [symmetric])
qed

lemma bind_err_Inr: "(bind_err m f = Inr r) = (\<exists>a. m = Inr a \<and> f a = Inr r)"
  by (cases m) (simp_all add: bind_err_def)

lemma rects_of_append [simp]: "rects_of P (xs @ ys) = rects_of P xs @ rects_of P ys"
  by (induction P xs rule: rects_of.induct) simp_all

lemma no_overlap_append:
  "no_overlap (xs @ ys) =
     (no_overlap xs \<and> no_overlap ys \<and> (\<forall>r \<in> set xs. \<forall>s \<in> set ys. \<not> overlap r s))"
  by (induction xs) auto

lemmas shape_defs = ROUTE_TABLE_SHAPE_def NAT_GATEWAY_SHAPE_def NACL_SHAPE_def VPC_SHAPE_def
  SUBNET_SHAPE_def

lemmas child_defs = is_subnet_outline_def is_vpc_child_def is_nat_icon_def

lemmas cell_defs = insert_text_def insert_line_def connection_def
  DiagramContainer_render_xml_connection_def DiagramObject_render_xml_connection_def
  DiagramList_render_xml_connection_def DiagramContainer_render_xml_def DiagramObject_render_xml_def

lemma render_associations_rects:
  "render_associations cfg sid x y as gen = Inr (cells, gen') \<Longrightarrow> rects_of P cells = []"
proof (induction as arbitrary: gen cells gen')
  case Nil
  then show ?case by simp
next
  case (Cons a as)
  obtain a0 a1 a2 a3 a4 where a: "a = (a0, a1, a2, a3, a4)" by (cases a) auto
  from Cons.prems obtain g where g: "gen = Some g"
    by (cases gen) (simp_all add: a)
  from Cons.prems obtain cells2 gen2 where
    r: "render_associations cfg sid x y as (Some (snd (get_next_route g x (y + 30)))) = Inr (cells2, gen2)"
    and c: "cells = DiagramContainer_render_xml_connection cfg sid a1 a2 (fst (get_next_route g x (y + 30))) # cells2"
    by (auto simp: a g bind_err_Inr split_beta Let_def)
  have "rects_of P cells2 = []" using Cons.IH [OF r] .
  then show ?case by (simp add: c cell_defs)
qed

lemma render_ngs_rects:
  "\<not> P (Shape NAT_GATEWAY_SHAPE) \<Longrightarrow> \<not> P TextStyle \<Longrightarrow> rects_of P (render_ngs cfg x ngs y) = []"
  by (induction ngs arbitrary: y)
     (simp_all add: NgResource_render_xml_def cell_defs split: option.splits)

lemma subnet_render_rects:
  assumes "SubnetResource_render_xml cfg s x y gen pad = Inr (cells, gen')"
    and "\<not> P (Shape NAT_GATEWAY_SHAPE)" and "\<not> P TextStyle" and "\<not> P (Shape SUBNET_SHAPE)"
  shows "rects_of P cells =
           (if P Rounded then [(x, y, SUBNET_MIN_W, snd (SubnetResource_get_dimensions s))] else [])"
proof -
  from assms(1) obtain conn_cells where
    r: "render_associations cfg (sub_id s) x y (associations s) gen = Inr (conn_cells, gen')"
    and c: "cells = DiagramContainer_render_xml (sub_id s) x y (fst (SubnetResource_get_dimensions s))
                      (snd (SubnetResource_get_dimensions s)) SUBNET_SHAPE 30 36 20 (- 20)
                    @ [insert_text (sub_id s @ '', CIDR: '' @ cidr s) x y 15 10,
                       insert_text (sub_name s) x (y + DIAGRAM_LINE_HEIGHT cfg) 15 10]
                    @ conn_cells
                    @ render_ngs cfg (x + fst (SubnetResource_get_dimensions s) - pad div 2) (ng_list s)
                        (y + snd (SubnetResource_get_dimensions s) div 2)"
    by (auto simp: SubnetResource_render_xml_def bind_err_Inr split_beta Let_def)
  have w: "fst (SubnetResource_get_dimensions s) = SUBNET_MIN_W"
    by (simp add: SubnetResource_get_dimensions_def Let_def)
  show ?thesis
    using assms(2-4)
    by (simp add: c render_associations_rects [OF r] render_ngs_rects cell_defs w)
qed

lemma subnet_height_pos: "0 \<le> snd (SubnetResource_get_dimensions s)"
  by (simp add: SubnetResource_get_dimensions_def Let_def SUBNET_MIN_H_def)

lemma render_subnets_rects:
  "render_subnets cfg width sx pad subs sy gen = Inr (cells, gen') \<Longrightarrow> 0 \<le> pad \<Longrightarrow>
   no_overlap (rects_of is_subnet_outline cells)
   \<and> (\<forall>r \<in> set (rects_of is_subnet_outline cells). sy \<le> fst (snd r))"
proof (induction subs arbitrary: sy gen cells gen')
  case Nil
  then show ?case by simp
next
  case (Cons s subs)
  let ?h = "snd (SubnetResource_get_dimensions s)"
  let ?off = "SubnetResource_get_col_suggestion s
                * ((width - fst (SubnetResource_get_dimensions s) - pad) div SUBNET_ALIGNMENT_COLS cfg)"
  from Cons.prems(1) obtain c1 g1 c2 where
    r1: "SubnetResource_render_xml cfg s (sx + ?off) sy gen PADDING = Inr (c1, g1)"
    and r2: "render_subnets cfg width sx pad subs (sy + pad + ?h) g1 = Inr (c2, gen')"
    and c: "cells = c1 @ c2"
    by (auto simp: bind_err_Inr split_beta Let_def split: if_splits)
  have h1: "rects_of is_subnet_outline c1 = [(sx + ?off, sy, SUBNET_MIN_W, ?h)]"
    using subnet_render_rects [OF r1, of is_subnet_outline] by (simp add: child_defs)
  note IH = Cons.IH [OF r2 Cons.prems(2)]
  have hp: "0 \<le> ?h" by (rule subnet_height_pos)
  have far: "\<forall>r \<in> set (rects_of is_subnet_outline c2). \<not> overlap (sx + ?off, sy, SUBNET_MIN_W, ?h) r"
  proof
    fix r assume "r \<in> set (rects_of is_subnet_outline c2)"
    then have "sy + pad + ?h \<le> fst (snd r)" using IH by blast
    then show "\<not> overlap (sx + ?off, sy, SUBNET_MIN_W, ?h) r"
      using Cons.prems(2) by (cases r) (auto simp: overlap_def)
  qed
  have low: "\<forall>r \<in> set (rects_of is_subnet_outline c2). sy \<le> fst (snd r)"
  proof
    fix r assume "r \<in> set (rects_of is_subnet_outline c2)"
    then have "sy + pad + ?h \<le> fst (snd r)" using IH by blast
    then show "sy \<le> fst (snd r)" using Cons.prems(2) hp by linarith
  qed
  show ?case using IH far low by (simp add: c h1)
qed

lemma az_children_apart:
  assumes "AZResource_render_xml cfg a x y gen padding = Inr (cells, gen')" and "0 \<le> padding"
  shows "no_overlap (rects_of is_subnet_outline cells)"
proof -
  from assms(1) obtain c where
    r: "render_subnets cfg (fst (AZResource_get_dimensions a)) (x + padding) padding
          (sort_key sub_name (subnets a)) (y + padding) gen = Inr (c, gen')"
    and cs: "cells = [Vertex AZDashed (az_id a) ''1'' x y (fst (AZResource_get_dimensions a))
                        (snd (AZResource_get_dimensions a)),
                      insert_text (az_id a) (x + fst (AZResource_get_dimensions a) div 2 - 40)
                        (y + snd (AZResource_get_dimensions a) - 40) 15 10] @ c"
    by (auto simp: AZResource_render_xml_def bind_err_Inr split_beta Let_def)
  show ?thesis
    using render_subnets_rects [OF r assms(2)] by (simp add: cs child_defs cell_defs)
qed

lemma create_lanes_rects:
  "create_lanes t lid hh lh cw flds f lx = Inr (cells, lanes) \<Longrightarrow> \<not> P Lane \<Longrightarrow> rects_of P cells = []"
proof (induction flds arbitrary: f lx cells lanes)
  case Nil
  then show ?case by simp
next
  case (Cons fld flds)
  from Cons.prems(1) obtain w c2 l2 where
    r: "create_lanes t lid hh lh cw flds (Suc f) (lx + w) = Inr (c2, l2)"
    and c: "cells = Vertex Lane (t @ ''_'' @ fld) lid lx hh w lh # c2"
    by (auto simp: bind_err_Inr split_beta)
  show ?case using Cons.IH [OF r Cons.prems(2)] Cons.prems(2) by (simp add: c)
qed

lemma add_entries_rects:
  "add_entries lanes cw yo vs i = Inr cells \<Longrightarrow> \<not> P Entry \<Longrightarrow> rects_of P cells = []"
proof (induction vs arbitrary: i cells)
  case Nil
  then show ?case by simp
next
  case (Cons v vs)
  from Cons.prems(1) obtain lane w c2 where
    r: "add_entries lanes cw yo vs (Suc i) = Inr c2"
    and c: "cells = Vertex Entry (lane @ ''_'' @ v @ ''_'' @ str_int yo) lane 5 yo (w - 10) 26 # c2"
    by (auto simp: bind_err_Inr)
  show ?case using Cons.IH [OF r Cons.prems(2)] Cons.prems(2) by (simp add: c)
qed

lemma render_entries_rects:
  "render_entries cfg lanes cw x y w es yo = Inr cells \<Longrightarrow> \<not> P Entry \<Longrightarrow> rects_of P cells = []"
proof (induction es arbitrary: yo cells)
  case Nil
  then show ?case by simp
next
  case (Cons e es)
  from Cons.prems(1) obtain c1 c2 where
    r1: "(case e of HORIZONTAL_LINE \<Rightarrow>
            (let horiz_line_y = y + yo + DIAGRAM_HEADER_SPACING div 2 + 5
             in Inr [insert_line x horiz_line_y (x + w) horiz_line_y])
          | Row vs \<Rightarrow> add_entries lanes cw yo vs 0) = Inr c1"
    and r2: "render_entries cfg lanes cw x y w es (yo + DIAGRAM_LINE_HEIGHT cfg) = Inr c2"
    and c: "cells = c1 @ c2"
    by (auto simp: bind_err_Inr)
  have "rects_of P c1 = []"
    using r1 Cons.prems(2)
    by (cases e) (auto simp: Let_def insert_line_def add_entries_rects)
  then show ?case using Cons.IH [OF r2 Cons.prems(2)] by (simp add: c)
qed

lemma diagram_list_rects:
  assumes "DiagramList_render_xml cfg t lid es flds cw x y = Inr (cells, h)"
    and "\<not> P Swimlane" and "\<not> P Lane" and "\<not> P Entry"
  shows "rects_of P cells = []"
proof -
  from assms(1) obtain lc lanes ec where
    r1: "create_lanes t lid (DIAGRAM_LINE_HEIGHT cfg)
           (DIAGRAM_HEADER_SPACING + DIAGRAM_LINE_HEIGHT cfg * int (length es) - DIAGRAM_LINE_HEIGHT cfg)
           cw flds 0 0 = Inr (lc, lanes)"
    and r2: "render_entries cfg lanes cw x y (sum_list cw) es (DIAGRAM_LINE_HEIGHT cfg) = Inr ec"
    and c: "cells = Vertex Swimlane lid ''1'' x y (sum_list cw)
                      (DIAGRAM_HEADER_SPACING + DIAGRAM_LINE_HEIGHT cfg * int (length es)) # lc @ ec"
    by (auto simp: DiagramList_render_xml_def bind_err_Inr Let_def split_beta)
  show ?thesis
    using create_lanes_rects [where P = P, OF r1 assms(3)]
      render_entries_rects [where P = P, OF r2 assms(4)] assms(2)
    by (simp add: c)
qed

lemma child_styles [simp]:
  "\<not> is_vpc_child Swimlane" "\<not> is_vpc_child Lane" "\<not> is_vpc_child Entry"
  "\<not> is_vpc_child TextStyle" "\<not> is_vpc_child Rounded"
  "\<not> is_vpc_child (Shape NAT_GATEWAY_SHAPE)" "\<not> is_vpc_child (Shape SUBNET_SHAPE)"
  "\<not> is_vpc_child (Shape VPC_SHAPE)"
  "is_vpc_child AZDashed" "is_vpc_child (Shape NACL_SHAPE)" "is_vpc_child (Shape ROUTE_TABLE_SHAPE)"
  by (simp_all add: is_vpc_child_def shape_defs)

lemma nacl_render_rects:
  assumes "NAclResource_render_xml cfg n x y g pad = Inr (cells, n', g')"
  shows "rects_of is_vpc_child cells = [(x, y, 50, 50)]"
proof -
  from assms obtain lc h t lid es flds cw lx where
    r: "DiagramList_render_xml cfg t lid es flds cw lx pad = Inr (lc, h)"
    and c: "cells = [DiagramObject_render_xml (nacl_id n) x y NACL_SHAPE 50 50,
                     insert_text (nacl_id n) x y (- 30) 50]
                    @ lc
                    @ [DiagramObject_render_xml_connection cfg (nacl_id n) (nacl_id n @ ''_list'') []
                         (fst (get_next_route g (x + 30) y))]"
    unfolding NAclResource_render_xml_def
    by (simp add: bind_err_Inr Let_def split_beta) blast
  have "rects_of is_vpc_child lc = []"
    using diagram_list_rects [where P = is_vpc_child, OF r] by simp
  then show ?thesis by (simp add: c cell_defs)
qed

lemma render_rt_associations_rects:
  "rects_of P (fst (render_rt_associations cfg rid x y as g)) = []"
proof (induction as arbitrary: g)
  case Nil
  then show ?case by simp
next
  case (Cons a as)
  obtain s i where a: "a = (s, i)" by (cases a)
  show ?case using Cons.IH by (simp add: a split_beta Let_def cell_defs)
qed

lemma render_route_connections_rects:
  "rects_of P (fst (render_route_connections cfg lid x rs rc ry g)) = []"
proof (induction rs arbitrary: rc ry g)
  case Nil
  then show ?case by simp
next
  case (Cons r rs)
  show ?case using Cons.IH by (simp add: split_beta Let_def cell_defs)
qed

lemma diagram_list_no_child:
  "DiagramList_render_xml cfg t lid es flds cw x y = Inr (cells, h) \<Longrightarrow>
   rects_of is_vpc_child cells = []"
  by (rule diagram_list_rects [where P = is_vpc_child]) simp_all

lemma rt_render_rects:
  assumes "RouteTableResource_render_xml cfg rt x y ly g1 g2 g3 pad = Inr (h, cells, g1', g2', g3')"
  shows "rects_of is_vpc_child cells = [(x, y, 50, 50)]"
proof -
  have ne: "routes rt \<noteq> []"
    using assms rt_render_no_routes [of rt cfg x y ly g1 g2 g3 pad] by auto
  define dl where "dl = DiagramList_render_xml cfg
      (if rt_name rt = [] then rt_id rt else rt_name rt @ ''  |  '' @ rt_id rt)
      (rt_id rt @ ''_list'') (map route_row (sort_routes rt))
      [''Destination CIDR'', ''State'', ''Gateway ID'', ''Origin'']
      [DIAGRAM_COL_WIDTH_OVERSIZED, DIAGRAM_COL_WIDTH_SMALL, DIAGRAM_COL_WIDTH_NORMAL,
       DIAGRAM_COL_WIDTH_NORMAL] 0 (ly - RESOURCE_DISTRIBUTION)"
  define conn where "conn = fst (if ADD_ROUTE_TABLE_CONNECTIONS cfg
                                 then render_route_connections cfg (rt_id rt @ ''_list'') x (routes rt) []
                                        (y + pad) g3
                                 else ([], g3))"
  have unf: "RouteTableResource_render_xml cfg rt x y ly g1 g2 g3 pad =
      (case dl of Inl e \<Rightarrow> Inl e
       | Inr (lc, hh) \<Rightarrow>
           Inr (hh, [DiagramObject_render_xml (rt_id rt) x y ROUTE_TABLE_SHAPE 50 50,
                     insert_text (rt_id rt) x y 0 50]
                    @ fst (render_rt_associations cfg (rt_id rt) x y (rt_associations rt) g1)
                    @ (lc @ conn)
                    @ [DiagramObject_render_xml_connection cfg (rt_id rt) (rt_id rt @ ''_list'') []
                         (fst (get_next_route g2 x (y + 10)))],
                snd (render_rt_associations cfg (rt_id rt) x y (rt_associations rt) g1),
                advance g2,
                snd (if ADD_ROUTE_TABLE_CONNECTIONS cfg
                     then render_route_connections cfg (rt_id rt @ ''_list'') x (routes rt) []
                            (y + pad) g3
                     else ([], g3))))"
    unfolding RouteTableResource_render_xml_def dl_def conn_def bind_err_def
    using ne by (simp add: Let_def split_beta split: sum.splits)
  from assms obtain lc hh where r: "dl = Inr (lc, hh)"
    and c: "cells = [DiagramObject_render_xml (rt_id rt) x y ROUTE_TABLE_SHAPE 50 50,
                     insert_text (rt_id rt) x y 0 50]
                    @ fst (render_rt_associations cfg (rt_id rt) x y (rt_associations rt) g1)
                    @ (lc @ conn)
                    @ [DiagramObject_render_xml_connection cfg (rt_id rt) (rt_id rt @ ''_list'') []
                         (fst (get_next_route g2 x (y + 10)))]"
    unfolding unf by (cases dl) auto
  have "rects_of is_vpc_child lc = []"
    using r unfolding dl_def by (rule diagram_list_no_child)
  moreover have "rects_of is_vpc_child conn = []"
    by (simp add: conn_def render_route_connections_rects)
  ultimately show ?thesis
    by (simp add: c cell_defs render_rt_associations_rects)
qed

lemma render_subnets_no_child:
  "render_subnets cfg width sx pad subs sy gen = Inr (cells, gen') \<Longrightarrow> rects_of is_vpc_child cells = []"
proof (induction subs arbitrary: sy gen cells gen')
  case Nil
  then show ?case by simp
next
  case (Cons s subs)
  from Cons.prems(1) obtain c1 g1 c2 x1 y2 where
    r1: "SubnetResource_render_xml cfg s x1 sy gen PADDING = Inr (c1, g1)"
    and r2: "render_subnets cfg width sx pad subs y2 g1 = Inr (c2, gen')"
    and c: "cells = c1 @ c2"
    by (auto simp: bind_err_Inr split_beta Let_def split: if_splits)
  have "rects_of is_vpc_child c1 = []"
    using subnet_render_rects [OF r1, of is_vpc_child] by simp
  then show ?case using Cons.IH [OF r2] by (simp add: c)
qed

lemma az_render_child_rects:
  assumes "AZResource_render_xml cfg a x y gen pad = Inr (cells, gen')"
  shows "rects_of is_vpc_child cells
           = [(x, y, fst (AZResource_get_dimensions a), snd (AZResource_get_dimensions a))]"
proof -
  from assms(1) obtain c where
    r: "render_subnets cfg (fst (AZResource_get_dimensions a)) (x + pad) pad
          (sort_key sub_name (subnets a)) (y + pad) gen = Inr (c, gen')"
    and cs: "cells = [Vertex AZDashed (az_id a) ''1'' x y (fst (AZResource_get_dimensions a))
                        (snd (AZResource_get_dimensions a)),
                      insert_text (az_id a) (x + fst (AZResource_get_dimensions a) div 2 - 40)
                        (y + snd (AZResource_get_dimensions a) - 40) 15 10] @ c"
    by (auto simp: AZResource_render_xml_def bind_err_Inr split_beta Let_def)
  show ?thesis
    using render_subnets_no_child [OF r] by (simp add: cs cell_defs)
qed

lemma render_nacls_rects:
  "render_nacls cfg ny ns nx g = Inr (cells, ns', g') \<Longrightarrow>
   no_overlap (rects_of is_vpc_child cells)
   \<and> (\<forall>r \<in> set (rects_of is_vpc_child cells). \<exists>x. r = (x, ny, 50, 50) \<and> nx \<le> x)"
proof (induction ns arbitrary: nx g cells ns' g')
  case Nil
  then show ?case by simp
next
  case (Cons n ns)
  from Cons.prems(1) obtain c1 n1 g1 c2 r1 where
    a: "NAclResource_render_xml cfg n nx ny g PADDING = Inr (c1, n1, g1)"
    and b: "render_nacls cfg ny ns (nx + RESOURCE_DISTRIBUTION) g1 = Inr (c2, r1, g')"
    and c: "cells = c1 @ c2"
    by (auto simp: bind_err_Inr split_beta)
  note IH = Cons.IH [OF b]
  have h: "rects_of is_vpc_child c1 = [(nx, ny, 50, 50)]" by (rule nacl_render_rects [OF a])
  have far: "\<forall>r \<in> set (rects_of is_vpc_child c2). \<not> overlap (nx, ny, 50, 50) r"
    using IH by (auto simp: overlap_def geometry_defs)
  have low: "\<forall>r \<in> set (rects_of is_vpc_child c2). \<exists>x. r = (x, ny, 50, 50) \<and> nx \<le> x"
    using IH by (auto simp: geometry_defs)
  show ?case using IH far low by (simp add: c h)
qed

lemma render_rts_rects:
  "render_rts cfg rx pad rts ry rly g1 g2 g3 = Inr cells \<Longrightarrow>
   no_overlap (rects_of is_vpc_child cells)
   \<and> (\<forall>r \<in> set (rects_of is_vpc_child cells). \<exists>y. r = (rx, y, 50, 50) \<and> ry \<le> y)"
proof (induction rts arbitrary: ry rly g1 g2 g3 cells)
  case Nil
  then show ?case by simp
next
  case (Cons rt rts)
  from Cons.prems(1) obtain h c1 g1' g2' g3' c2 where
    a: "RouteTableResource_render_xml cfg rt rx ry rly g1 g2 g3 PADDING = Inr (h, c1, g1', g2', g3')"
    and b: "render_rts cfg rx pad rts (ry + max (int_div_1_3 h) RESOURCE_DISTRIBUTION)
              (rly + max (pad + h) RESOURCE_DISTRIBUTION) g1' g2' g3' = Inr c2"
    and c: "cells = c1 @ c2"
    by (auto simp: bind_err_Inr split_beta)
  note IH = Cons.IH [OF b]
  have hd: "rects_of is_vpc_child c1 = [(rx, ry, 50, 50)]" by (rule rt_render_rects [OF a])
  have step: "ry + 180 \<le> ry + max (int_div_1_3 h) RESOURCE_DISTRIBUTION"
    by (simp add: geometry_defs)
  have far: "\<forall>r \<in> set (rects_of is_vpc_child c2). \<not> overlap (rx, ry, 50, 50) r"
    using IH step by (fastforce simp: overlap_def)
  have low: "\<forall>r \<in> set (rects_of is_vpc_child c2). \<exists>y. r = (rx, y, 50, 50) \<and> ry \<le> y"
    using IH step by fastforce
  show ?case using IH far low by (simp add: c hd)
qed

lemma az_fold_height:
  "h \<le> snd (fold (\<lambda>subnet a. (fst (SubnetResource_get_dimensions subnet),
                                 snd a + snd (SubnetResource_get_dimensions subnet) + PADDING))
                 subs (w, h))"
proof (induction subs arbitrary: w h)
  case Nil
  then show ?case by simp
next
  case (Cons s subs)
  have "h + snd (SubnetResource_get_dimensions s) + PADDING
          \<le> snd (fold (\<lambda>subnet a. (fst (SubnetResource_get_dimensions subnet),
                                 snd a + snd (SubnetResource_get_dimensions subnet) + PADDING)) subs
                 (fst (SubnetResource_get_dimensions s), h + snd (SubnetResource_get_dimensions s) + PADDING))"
    by (rule Cons.IH)
  moreover have "0 \<le> snd (SubnetResource_get_dimensions s)" by (rule subnet_height_pos)
  moreover have "0 \<le> PADDING" by (simp add: PADDING_def)
  ultimately show ?case by simp
qed

lemma az_height_pos: "0 \<le> snd (AZResource_get_dimensions a)"
proof -
  have "PADDING \<le> snd (AZResource_get_dimensions a)"
    using az_fold_height [of PADDING "subnets a" 0]
    by (simp add: AZResource_get_dimensions_def case_prod_unfold Let_def)
  then show ?thesis by (simp add: PADDING_def)
qed

lemma az_dims_empty:
  "empty a \<Longrightarrow> AZResource_get_dimensions (override_width a w) = (w, PADDING)"
  by (simp add: empty_def AZResource_get_dimensions_def override_width_def)

lemma az_step_right:
  "az_ok az_x saw pad (az_y + pad + PADDING) False r \<Longrightarrow> 0 \<le> pad \<Longrightarrow>
   \<not> overlap (az_x + saw + pad, az_y, saw, PADDING) r \<and> az_ok az_x saw pad az_y True r"
  by (cases r) (auto simp: az_ok_def overlap_def)

lemma az_step_left:
  "az_ok az_x saw pad az_y True r \<Longrightarrow> 0 \<le> pad \<Longrightarrow>
   \<not> overlap (az_x, az_y, saw, PADDING) r \<and> az_ok az_x saw pad az_y False r"
  by (cases r) (auto simp: az_ok_def overlap_def PADDING_def)

lemma az_step_full:
  "az_ok az_x saw pad ((if right then az_y + SUBNET_MIN_H + pad else az_y) + pad + h) False r \<Longrightarrow>
   0 \<le> pad \<Longrightarrow> 0 \<le> h \<Longrightarrow>
   \<not> overlap (az_x, (if right then az_y + SUBNET_MIN_H + pad else az_y), w, h) r
   \<and> az_ok az_x saw pad az_y right r"
  by (cases r) (auto simp: az_ok_def overlap_def PADDING_def SUBNET_MIN_H_def)

lemma render_azs_rects:
  "render_azs cfg az_x saw pad azs az_y right g = Inr (cells, azs', g') \<Longrightarrow> 0 \<le> pad \<Longrightarrow> 0 \<le> saw \<Longrightarrow>
   no_overlap (rects_of is_vpc_child cells)
   \<and> (\<forall>r \<in> set (rects_of is_vpc_child cells). az_ok az_x saw pad az_y right r)"
proof (induction azs arbitrary: az_y right g cells azs' g')
  case Nil
  then show ?case by simp
next
  case (Cons a azs)
  note pad = Cons.prems(2) and saw = Cons.prems(3)
  show ?case
  proof (cases "empty a")
    case True
    let ?a1 = "override_width a saw"
    have dims: "AZResource_get_dimensions ?a1 = (saw, PADDING)" by (rule az_dims_empty [OF True])
    show ?thesis
    proof (cases right)
      case right: True
      from Cons.prems(1) True right obtain c1 gen c2 rest' where
        r1: "AZResource_render_xml cfg ?a1 (az_x + saw + pad) az_y None PADDING = Inr (c1, gen)"
        and r2: "render_azs cfg az_x saw pad azs (az_y + pad + PADDING) False g = Inr (c2, rest', g')"
        and c: "cells = c1 @ c2"
        by (auto simp: bind_err_Inr split_beta Let_def dims)
      have hd: "rects_of is_vpc_child c1 = [(az_x + saw + pad, az_y, saw, PADDING)]"
        using az_render_child_rects [OF r1] by (simp add: dims)
      note IH = Cons.IH [OF r2 pad saw]
      have step: "\<forall>r \<in> set (rects_of is_vpc_child c2).
          \<not> overlap (az_x + saw + pad, az_y, saw, PADDING) r \<and> az_ok az_x saw pad az_y True r"
        using IH az_step_right [OF _ pad] by blast
      have ok0: "az_ok az_x saw pad az_y True (az_x + saw + pad, az_y, saw, PADDING)"
        using pad saw by (simp add: az_ok_def)
      show ?thesis using IH step ok0 right by (simp add: c hd)
    next
      case left: False
      from Cons.prems(1) True left obtain c1 gen c2 rest' where
        r1: "AZResource_render_xml cfg ?a1 az_x az_y None PADDING = Inr (c1, gen)"
        and r2: "render_azs cfg az_x saw pad azs az_y True g = Inr (c2, rest', g')"
        and c: "cells = c1 @ c2"
        by (auto simp: bind_err_Inr split_beta Let_def)
      have hd: "rects_of is_vpc_child c1 = [(az_x, az_y, saw, PADDING)]"
        using az_render_child_rects [OF r1] by (simp add: dims)
      note IH = Cons.IH [OF r2 pad saw]
      have step: "\<forall>r \<in> set (rects_of is_vpc_child c2).
          \<not> overlap (az_x, az_y, saw, PADDING) r \<and> az_ok az_x saw pad az_y False r"
        using IH az_step_left [OF _ pad] by blast
      have ok0: "az_ok az_x saw pad az_y False (az_x, az_y, saw, PADDING)"
        by (simp add: az_ok_def)
      show ?thesis using IH step ok0 left by (simp add: c hd)
    qed
  next
    case False
    let ?y1 = "if right then az_y + SUBNET_MIN_H + pad else az_y"
    let ?w = "fst (AZResource_get_dimensions a)"
    let ?h = "snd (AZResource_get_dimensions a)"
    from Cons.prems(1) False obtain c1 gen c2 rest' g2 where
      r1: "AZResource_render_xml cfg a az_x ?y1 (Some g) PADDING = Inr (c1, gen)"
      and r2: "render_azs cfg az_x saw pad azs (?y1 + pad + ?h) False g2 = Inr (c2, rest', g')"
      and c: "cells = c1 @ c2"
      by (auto simp: bind_err_Inr split_beta Let_def)
    have hd: "rects_of is_vpc_child c1 = [(az_x, ?y1, ?w, ?h)]"
      by (rule az_render_child_rects [OF r1])
    note IH = Cons.IH [OF r2 pad saw]
    have hp: "0 \<le> ?h" by (rule az_height_pos)
    have step: "\<forall>r \<in> set (rects_of is_vpc_child c2).
        \<not> overlap (az_x, ?y1, ?w, ?h) r \<and> az_ok az_x saw pad az_y right r"
      using IH az_step_full [OF _ pad hp] by blast
    have ok0: "az_ok az_x saw pad az_y right (az_x, ?y1, ?w, ?h)"
      by (simp add: az_ok_def PADDING_def SUBNET_MIN_H_def)
    show ?thesis using IH step ok0 by (simp add: c hd)
  qed
qed

lemma vpc_width_bound:
  assumes "\<not> check_empty v"
  shows "9 * PADDING \<le> fst (fst (VpcResource_get_dimensions v))"
proof -
  have "RESOURCE_DISTRIBUTION + PADDING \<le> az_max_width (az_list v) (RESOURCE_DISTRIBUTION + PADDING)"
    by (rule az_max_width_ge)
  then show ?thesis
    by (simp add: vpc_dims_unfold [OF assms] Let_def geometry_defs)
qed

lemma render_text_list_rects: "rects_of is_vpc_child (fst (render_text_list cfg x off ts ly)) = []"
  by (induction ts arbitrary: ly) (simp_all add: split_beta Let_def insert_text_def)

lemma vpc_dims_nacls: "nacl_list (snd (VpcResource_get_dimensions v)) = nacl_list v"
  by (simp add: VpcResource_get_dimensions_def split_beta Let_def)

lemma vpc_dims_empty: "check_empty v \<Longrightarrow> snd (VpcResource_get_dimensions v) = v"
  by (simp add: VpcResource_get_dimensions_def)

lemma vpc_render_unfold:
  assumes "VpcResource_render_xml cfg set_iter v x y pad ov = Inr (cells, v')"
  shows "\<exists>nc ns gn g0 srt rc g1 g2 g3 ac azs ga g.
     render_nacls cfg (y + pad) (nacl_list (snd (VpcResource_get_dimensions v)))
        (x + RESOURCE_DISTRIBUTION + 2 * pad) gn = Inr (nc, ns, g0)
     \<and> render_rts cfg (x + pad div 2) pad srt (y + RESOURCE_DISTRIBUTION + pad)
          (y + RESOURCE_DISTRIBUTION + pad) g1 g2 g3 = Inr rc
     \<and> render_azs cfg (x + RESOURCE_DISTRIBUTION)
          ((fst (fst (VpcResource_get_dimensions v)) - 7 * pad) div 2) pad
          (az_list (snd (VpcResource_get_dimensions v))) (y + RESOURCE_DISTRIBUTION) False ga
        = Inr (ac, azs, g)
     \<and> rects_of is_vpc_child cells
        = rects_of is_vpc_child nc @ rects_of is_vpc_child rc @ rects_of is_vpc_child ac"
  using assms unfolding VpcResource_render_xml_def
  apply (simp add: Let_def split_beta bind_err_Inr)
  apply (elim exE conjE)
  apply (intro exI conjI)
     apply assumption
    apply assumption
   apply assumption
  apply (drule_tac t = cells in sym)
  apply (simp add: cell_defs render_text_list_rects split_beta Let_def)
  done

lemma vpc_children_apart:
  assumes r: "VpcResource_render_xml cfg set_iter v x y pad ov = Inr (cells, v')"
    and pad: "0 \<le> pad" "pad \<le> PADDING"
  shows "no_overlap (rects_of is_vpc_child cells)"
proof -
  let ?w = "fst (fst (VpcResource_get_dimensions v))"
  let ?v1 = "snd (VpcResource_get_dimensions v)"
  let ?saw = "(?w - 7 * pad) div 2"
  from vpc_render_unfold [OF r] obtain nc ns gn g0 srt rc g1 g2 g3 ac azs ga g where
    n: "render_nacls cfg (y + pad) (nacl_list ?v1) (x + RESOURCE_DISTRIBUTION + 2 * pad) gn
          = Inr (nc, ns, g0)"
    and t: "render_rts cfg (x + pad div 2) pad srt (y + RESOURCE_DISTRIBUTION + pad)
              (y + RESOURCE_DISTRIBUTION + pad) g1 g2 g3 = Inr rc"
    and a: "render_azs cfg (x + RESOURCE_DISTRIBUTION) ?saw pad (az_list ?v1)
              (y + RESOURCE_DISTRIBUTION) False ga = Inr (ac, azs, g)"
    and c: "rects_of is_vpc_child cells
              = rects_of is_vpc_child nc @ rects_of is_vpc_child rc @ rects_of is_vpc_child ac"
    by blast
  note N = render_nacls_rects [OF n]
  note T = render_rts_rects [OF t]
  have A: "no_overlap (rects_of is_vpc_child ac)
           \<and> (\<forall>r \<in> set (rects_of is_vpc_child ac). \<exists>rx ry rw rh. r = (rx, ry, rw, rh)
                 \<and> x + RESOURCE_DISTRIBUTION \<le> rx \<and> y + RESOURCE_DISTRIBUTION \<le> ry)"
  proof (cases "check_empty v")
    case True
    then have "az_list ?v1 = []" by (simp add: vpc_dims_empty check_empty_def)
    with a show ?thesis by simp
  next
    case False
    have "9 * PADDING \<le> ?w" by (rule vpc_width_bound [OF False])
    with pad have saw: "0 \<le> ?saw" by (simp add: PADDING_def)
    from render_azs_rects [OF a pad(1) saw] show ?thesis
      by (auto simp: az_ok_def)
  qed
  have NT: "\<forall>r \<in> set (rects_of is_vpc_child nc). \<forall>s \<in> set (rects_of is_vpc_child rc). \<not> overlap r s"
    using N T pad by (fastforce simp: overlap_def geometry_defs)
  have NA: "\<forall>r \<in> set (rects_of is_vpc_child nc). \<forall>s \<in> set (rects_of is_vpc_child ac). \<not> overlap r s"
    using N A pad by (fastforce simp: overlap_def geometry_defs)
  have TA: "\<forall>r \<in> set (rects_of is_vpc_child rc). \<forall>s \<in> set (rects_of is_vpc_child ac). \<not> overlap r s"
    using T A pad by (fastforce simp: overlap_def geometry_defs)
  show ?thesis
    unfolding c using N T A NT NA TA by (simp add: no_overlap_append) blast
qed

text \<open>
  C1: the children one container places do not overlap. The rounded outlines of the
  subnets that \<open>AZResource.render_xml\<close> emits are pairwise non-overlapping (for every
  non-negative padding), and so are the rectangles that \<open>VpcResource.render_xml\<close> assigns
  to its availability zones, its NACL icons and its route-table icons (for every padding
  from 0 to PADDING; every call of the program uses the default, PADDING). Both hold for
  every rendering that returns, whatever the resources, the position, the route generators
  and the order in which \<open>set()\<close> iterates.
\<close>

theorem siblings_apart:
  "(AZResource_render_xml cfg a x y gen padding = Inr (cells, gen') \<and> 0 \<le> padding
      \<longrightarrow> no_overlap (rects_of is_subnet_outline cells))
   \<and> (VpcResource_render_xml cfg set_iter v vx vy vpadding override = Inr (vcells, v')
        \<and> 0 \<le> vpadding \<and> vpadding \<le> PADDING
      \<longrightarrow> no_overlap (rects_of is_vpc_child vcells))"
  using az_children_apart [of cfg a x y gen padding cells gen']
    vpc_children_apart [of cfg set_iter v vx vy vpadding override vcells v']
  by blast

theorem siblings_apart_witness:
  "\<not> isl (AZResource_render_xml cfg0 az_two 0 0 None PADDING)
   \<and> rects_of is_subnet_outline (fst (projr (AZResource_render_xml cfg0 az_two 0 0 None PADDING)))
       = [(60, 60, 340, 80), (60, 200, 340, 80)]
   \<and> no_overlap (rects_of is_subnet_outline
                   (fst (projr (AZResource_render_xml cfg0 az_two 0 0 None PADDING))))
   \<and> \<not> isl (VpcResource_render_xml cfg0 remdups vpc_three 0 0 PADDING 0)
   \<and> rects_of is_vpc_child (fst (projr (VpcResource_render_xml cfg0 remdups vpc_three 0 0 PADDING 0)))
       = [(300, 60, 50, 50), (480, 60, 50, 50), (30, 240, 50, 50), (30, 420, 50, 50),
          (180, 180, 200, 60), (440, 180, 200, 60), (180, 300, 460, 340)]
   \<and> no_overlap (rects_of is_vpc_child
                   (fst (projr (VpcResource_render_xml cfg0 remdups vpc_three 0 0 PADDING 0))))"
proof -
  have a: "\<not> isl (AZResource_render_xml cfg0 az_two 0 0 None PADDING)"
    by code_simp
  have b: "\<not> isl (VpcResource_render_xml cfg0 remdups vpc_three 0 0 PADDING 0)"
    by code_simp
  have la: "rects_of is_subnet_outline (fst (projr (AZResource_render_xml cfg0 az_two 0 0 None PADDING)))
              = [(60, 60, 340, 80), (60, 200, 340, 80)]"
    by code_simp
  have lb: "rects_of is_vpc_child (fst (projr (VpcResource_render_xml cfg0 remdups vpc_three 0 0 PADDING 0)))
              = [(300, 60, 50, 50), (480, 60, 50, 50), (30, 240, 50, 50), (30, 420, 50, 50),
                 (180, 180, 200, 60), (440, 180, 200, 60), (180, 300, 460, 340)]"
    by code_simp
  from a obtain c g where ra: "AZResource_render_xml cfg0 az_two 0 0 None PADDING = Inr (c, g)"
    by (cases "AZResource_render_xml cfg0 az_two 0 0 None PADDING") auto
  from b obtain vc v' where
    rb: "VpcResource_render_xml cfg0 remdups vpc_three 0 0 PADDING 0 = Inr (vc, v')"
    by (cases "VpcResource_render_xml cfg0 remdups vpc_three 0 0 PADDING 0") auto
  have p: "(0::int) \<le> PADDING" by (simp add: PADDING_def)
  have "no_overlap (rects_of is_subnet_outline c) \<and> no_overlap (rects_of is_vpc_child vc)"
    using siblings_apart [where cfg = cfg0 and a = az_two and x = 0 and y = 0 and gen = None
        and padding = PADDING and cells = c and gen' = g and set_iter = remdups and v = vpc_three
        and vx = 0 and vy = 0 and vpadding = PADDING and override = 0 and vcells = vc and v' = v']
      ra rb p by simp
  then have "no_overlap (rects_of is_subnet_outline
                 (fst (projr (AZResource_render_xml cfg0 az_two 0 0 None PADDING))))"
    and "no_overlap (rects_of is_vpc_child
                 (fst (projr (VpcResource_render_xml cfg0 remdups vpc_three 0 0 PADDING 0))))"
    by (simp_all add: ra rb)
  with a b la lb show ?thesis by (intro conjI)
qed















end
